theory Spec2Isabelle
  imports Complex_Main
begin

section \<open>Gemini co-drawing canvas: the Home component of src/Home.tsx\<close>

text \<open>
  The component keeps its state in React hooks and refs and talks to the browser
  (canvas 2D context, image decoding) and to the generation service. The model below
  passes the component state explicitly, takes the browser's canvas and image
  operations as a record of functions, and takes the outcome of the awaited network
  call as an input value. Image \<open>onload\<close> callbacks and queued state updates are
  run in the order the source issues them.
\<close>

subsection \<open>JavaScript values used by the component\<close>

text \<open>
  \<open>Array.prototype.slice(start, end)\<close> on integer arguments: a negative argument
  counts from the end, both ends are clamped to the array.
\<close>

definition js_slice :: "'a list \<Rightarrow> int \<Rightarrow> int \<Rightarrow> 'a list" where
  "js_slice xs start fin =
     (let len = int (length xs);
          k = (if start < 0 then max (len + start) 0 else min start len);
          final = (if fin < 0 then max (len + fin) 0 else min fin len)
      in take (nat (final - k)) (drop (nat k) xs))"

text \<open>\<open>xs[i]\<close>: \<open>undefined\<close> (here \<open>None\<close>) outside the array.\<close>

definition js_nth :: "'a list \<Rightarrow> int \<Rightarrow> 'a option" where
  "js_nth xs i = (if 0 \<le> i \<and> i < int (length xs) then Some (xs ! nat i) else None)"

text \<open>A string-valued expression used as a condition: \<open>undefined\<close>, \<open>null\<close> and the
  empty string are falsy.\<close>

fun truthy :: "string option \<Rightarrow> bool" where
  "truthy None = False"
| "truthy (Some s) = (s \<noteq> [])"

text \<open>
  Numbers. A JavaScript number is an IEEE 754 double. A finite number is modelled by
  the real it denotes, together with the special values; the sign of zero is not
  represented. The result of an arithmetic operation is the exact result rounded to
  the nearest double, ties to even, as the standard prescribes.
\<close>

datatype jsnum = Fin real | PInf | NInf | NaN

text \<open>
  \<open>expo x\<close> is the binary exponent of a positive real: \<open>2 powi expo x \<le> x < 2 powi (expo x + 1)\<close>.
\<close>

function expo :: "real \<Rightarrow> int" where
  "expo x = (if x \<le> 0 then 0
             else if 2 \<le> x then expo (x / 2) + 1
             else if x < 1 then expo (2 * x) - 1
             else 0)"
  by pat_completeness auto
termination
proof (relation "measure (\<lambda>x. if 1 \<le> x then nat \<lceil>x\<rceil> else nat \<lceil>1 / x\<rceil> + 2)")
  show "wf (measure (\<lambda>x::real. if 1 \<le> x then nat \<lceil>x\<rceil> else nat \<lceil>1 / x\<rceil> + 2))"
    by simp
next
  fix x :: real
  assume a: "\<not> x \<le> 0" "2 \<le> x"
  have "\<lceil>x / 2\<rceil> \<le> \<lceil>x - 1\<rceil>" using a by (intro ceiling_mono) simp
  then have "\<lceil>x / 2\<rceil> < \<lceil>x\<rceil>" by simp
  moreover have "0 < \<lceil>x\<rceil>" using a by simp
  ultimately show "(x / 2, x) \<in> measure (\<lambda>x. if 1 \<le> x then nat \<lceil>x\<rceil> else nat \<lceil>1 / x\<rceil> + 2)"
    using a by simp
next
  fix x :: real
  assume a: "\<not> x \<le> 0" "\<not> 2 \<le> x" "x < 1"
  show "(2 * x, x) \<in> measure (\<lambda>x. if 1 \<le> x then nat \<lceil>x\<rceil> else nat \<lceil>1 / x\<rceil> + 2)"
  proof (cases "1 \<le> 2 * x")
    case True
    have "\<lceil>2 * x\<rceil> \<le> 2" using a by (simp add: ceiling_le_iff)
    then have "nat \<lceil>2 * x\<rceil> \<le> 2" by linarith
    moreover have "1 < 1 / x" using a by simp
    then have "1 < \<lceil>1 / x\<rceil>" by (simp only: less_ceiling_iff of_int_1)
    then have "1 \<le> nat \<lceil>1 / x\<rceil>" by linarith
    ultimately have "nat \<lceil>2 * x\<rceil> < nat \<lceil>1 / x\<rceil> + 2" by linarith
    then show ?thesis using a True by simp
  next
    case False
    then have x2: "2 \<le> 1 / x" using a by (simp add: field_simps)
    have "\<lceil>1 / (2 * x)\<rceil> \<le> \<lceil>1 / x - 1\<rceil>"
      using x2 a by (intro ceiling_mono) (simp add: field_simps)
    then have "\<lceil>1 / (2 * x)\<rceil> < \<lceil>1 / x\<rceil>" by simp
    moreover have "0 < \<lceil>1 / x\<rceil>" using x2 a by simp
    ultimately show ?thesis using a False by simp
  qed
qed

declare expo.simps [simp del]

text \<open>Rounding a real to the nearest integer, ties to even.\<close>

definition round_even :: "real \<Rightarrow> int" where
  "round_even x =
     (let f = \<lfloor>x\<rfloor>; d = x - of_int f
      in if d < 1 / 2 then f else if 1 / 2 < d then f + 1
         else if even f then f else f + 1)"

text \<open>
  The spacing of the doubles around \<open>x\<close>: 52 fraction bits below the exponent, and
  the fixed spacing \<open>2 powi (- 1074)\<close> of the subnormal numbers below \<open>2 powi (- 1022)\<close>.
  \<open>rd x\<close> is the double nearest to \<open>x\<close>, \<open>fl x\<close> the number an operation with exact
  result \<open>x\<close> returns: an infinity when the rounded value reaches \<open>2 powi 1024\<close>.
\<close>

definition quantum :: "real \<Rightarrow> real" where
  "quantum x = 2 powi (max (expo \<bar>x\<bar>) (- 1022) - 52)"

definition rd :: "real \<Rightarrow> real" where
  "rd x = of_int (round_even (x / quantum x)) * quantum x"

definition fl :: "real \<Rightarrow> jsnum" where
  "fl x =
     (let y = rd x
      in if 2 powi 1024 \<le> \<bar>y\<bar> then (if 0 < y then PInf else NInf) else Fin y)"

fun num_truthy :: "jsnum \<Rightarrow> bool" where
  "num_truthy (Fin x) = (x \<noteq> 0)"
| "num_truthy NaN = False"
| "num_truthy PInf = True"
| "num_truthy NInf = True"

fun js_mul :: "jsnum \<Rightarrow> jsnum \<Rightarrow> jsnum" where
  "js_mul NaN _ = NaN"
| "js_mul _ NaN = NaN"
| "js_mul (Fin a) (Fin b) = fl (a * b)"
| "js_mul (Fin a) PInf = (if a = 0 then NaN else if 0 < a then PInf else NInf)"
| "js_mul (Fin a) NInf = (if a = 0 then NaN else if 0 < a then NInf else PInf)"
| "js_mul PInf (Fin b) = (if b = 0 then NaN else if 0 < b then PInf else NInf)"
| "js_mul NInf (Fin b) = (if b = 0 then NaN else if 0 < b then NInf else PInf)"
| "js_mul PInf PInf = PInf"
| "js_mul PInf NInf = NInf"
| "js_mul NInf PInf = NInf"
| "js_mul NInf NInf = PInf"

fun js_div :: "jsnum \<Rightarrow> jsnum \<Rightarrow> jsnum" where
  "js_div NaN _ = NaN"
| "js_div _ NaN = NaN"
| "js_div (Fin a) (Fin b) =
     (if b = 0 then (if a = 0 then NaN else if 0 < a then PInf else NInf)
      else fl (a / b))"
| "js_div (Fin a) PInf = Fin 0"
| "js_div (Fin a) NInf = Fin 0"
| "js_div PInf (Fin b) = (if b < 0 then NInf else PInf)"
| "js_div NInf (Fin b) = (if b < 0 then PInf else NInf)"
| "js_div PInf PInf = NaN"
| "js_div PInf NInf = NaN"
| "js_div NInf PInf = NaN"
| "js_div NInf NInf = NaN"

fun js_sub :: "jsnum \<Rightarrow> jsnum \<Rightarrow> jsnum" where
  "js_sub NaN _ = NaN"
| "js_sub _ NaN = NaN"
| "js_sub (Fin a) (Fin b) = fl (a - b)"
| "js_sub (Fin a) PInf = NInf"
| "js_sub (Fin a) NInf = PInf"
| "js_sub PInf (Fin b) = PInf"
| "js_sub NInf (Fin b) = NInf"
| "js_sub PInf PInf = NaN"
| "js_sub PInf NInf = PInf"
| "js_sub NInf PInf = NInf"
| "js_sub NInf NInf = NaN"

text \<open>\<open>Math.min\<close> of two numbers.\<close>

fun js_min :: "jsnum \<Rightarrow> jsnum \<Rightarrow> jsnum" where
  "js_min NaN _ = NaN"
| "js_min _ NaN = NaN"
| "js_min NInf _ = NInf"
| "js_min _ NInf = NInf"
| "js_min PInf b = b"
| "js_min a PInf = a"
| "js_min (Fin a) (Fin b) = Fin (min a b)"

text \<open>\<open>a || b\<close> where \<open>a\<close> is a number or \<open>undefined\<close>, and \<open>a - b\<close> where \<open>a\<close> may be
  \<open>undefined\<close> (\<open>undefined - b\<close> is \<open>NaN\<close>).\<close>

definition js_or :: "jsnum option \<Rightarrow> jsnum \<Rightarrow> jsnum" where
  "js_or a b = (case a of None \<Rightarrow> b | Some x \<Rightarrow> if num_truthy x then x else b)"

definition js_sub_undef :: "jsnum option \<Rightarrow> jsnum \<Rightarrow> jsnum" where
  "js_sub_undef a b = (case a of None \<Rightarrow> NaN | Some x \<Rightarrow> js_sub x b)"

text \<open>\<open>s.split(',')\<close> and the case-insensitive search of \<open>/word/i.test(s)\<close> for a
  pattern of plain characters.\<close>

fun split_comma :: "string \<Rightarrow> string list" where
  "split_comma [] = [[]]"
| "split_comma (c # cs) =
     (if c = CHR '','' then [] # split_comma cs
      else (case split_comma cs of
              [] \<Rightarrow> [[c]]
            | w # ws \<Rightarrow> (c # w) # ws))"

definition lower :: "char \<Rightarrow> char" where
  "lower c =
     (if (65::nat) \<le> of_char c \<and> of_char c \<le> (90::nat)
      then char_of (of_char c + (32::nat)) else c)"

fun starts_with :: "string \<Rightarrow> string \<Rightarrow> bool" where
  "starts_with [] s = True"
| "starts_with (p # ps) [] = False"
| "starts_with (p # ps) (c # cs) = (p = c \<and> starts_with ps cs)"

fun contains :: "string \<Rightarrow> string \<Rightarrow> bool" where
  "contains pat [] = (pat = [])"
| "contains pat (c # cs) = (starts_with pat (c # cs) \<or> contains pat cs)"

definition test_ci :: "string \<Rightarrow> string \<Rightarrow> bool" where
  "test_ci pat s = contains (map lower pat) (map lower s)"

subsection \<open>History state\<close>

text \<open>\<open>useState<{stack: string[]; index: number}>({stack: [], index: -1})\<close>\<close>

record history =
  stack :: "string list"
  index :: int

definition initialHistory :: history where
  "initialHistory = \<lparr>stack = [], index = - 1\<rparr>"

text \<open>The updater passed to \<open>setHistoryState\<close> in \<open>saveCanvasState\<close>.\<close>

definition pushSnapshot :: "string \<Rightarrow> history \<Rightarrow> history" where
  "pushSnapshot dataUrl prev =
     (let newStack = js_slice (stack prev) 0 (index prev + 1) @ [dataUrl]
      in \<lparr>stack = newStack, index = int (length newStack) - 1\<rparr>)"

subsection \<open>The browser\<close>

text \<open>
  A raster \<open>'r\<close> is the content of a canvas (its pixels and the current path of
  its 2D context), an image \<open>'i\<close> a decoded image.
  \<open>loadImage\<close> is \<open>new Image()\<close> with \<open>src\<close> set: \<open>None\<close> when decoding fails and
  \<open>onload\<close> never fires. \<open>drawImage\<close> takes the numeric arguments of
  \<open>ctx.drawImage\<close> after the image. \<open>compositeOnWhite\<close> is the temporary canvas of
  \<open>handleSubmit\<close>: filled white, then the canvas drawn on top. \<open>moveTo\<close> is
  \<open>beginPath\<close> and \<open>moveTo\<close>; \<open>strokeTo\<close> is \<open>lineTo\<close> and \<open>stroke\<close> with line
  width 5, round caps and the given colour. \<open>typeErrorMessage\<close> is the message of
  the TypeError the engine raises when \<open>length\<close> is read from \<open>undefined\<close>.
\<close>

record ('r, 'i) browser =
  toDataURL :: "'r \<Rightarrow> string"
  fillWhite :: "'r \<Rightarrow> 'r"
  clearRect :: "'r \<Rightarrow> 'r"
  drawImage :: "'i \<Rightarrow> jsnum list \<Rightarrow> 'r \<Rightarrow> 'r"
  compositeOnWhite :: "'r \<Rightarrow> 'r"
  loadImage :: "string \<Rightarrow> 'i option"
  imageWidth :: "'i \<Rightarrow> jsnum"
  imageHeight :: "'i \<Rightarrow> jsnum"
  moveTo :: "jsnum \<Rightarrow> jsnum \<Rightarrow> 'r \<Rightarrow> 'r"
  strokeTo :: "string \<Rightarrow> jsnum \<Rightarrow> jsnum \<Rightarrow> 'r \<Rightarrow> 'r"
  typeErrorMessage :: string

subsection \<open>Component state\<close>

text \<open>\<open>canvas\<close> is the content of \<open>canvasRef.current\<close>, \<open>None\<close> while the ref is null.\<close>

record ('r, 'i) home =
  canvas :: "'r option"
  backgroundImage :: "'i option"
  generatedImage :: "string option"
  historyState :: history
  isDrawing :: bool
  penColor :: string
  prompt :: string
  apiKey :: string
  selectedModel :: string
  isLoading :: bool
  showApiKeyModal :: bool
  showErrorModal :: bool
  errorMessage :: string

definition saveCanvasState :: "('r, 'i) browser \<Rightarrow> ('r, 'i) home \<Rightarrow> ('r, 'i) home" where
  "saveCanvasState B s =
     (case canvas s of
        None \<Rightarrow> s
      | Some c \<Rightarrow> s\<lparr>historyState := pushSnapshot (toDataURL B c) (historyState s)\<rparr>)"

definition restoreCanvasState ::
  "('r, 'i) browser \<Rightarrow> string option \<Rightarrow> ('r, 'i) home \<Rightarrow> ('r, 'i) home" where
  "restoreCanvasState B dataUrl s =
     (case canvas s of
        None \<Rightarrow> s
      | Some c \<Rightarrow>
          if \<not> truthy dataUrl then s
          else (case loadImage B (the dataUrl) of
                  None \<Rightarrow> s
                | Some img \<Rightarrow>
                    s\<lparr>canvas := Some (drawImage B img [Fin 0, Fin 0] (clearRect B c))\<rparr>))"

text \<open>
  \<open>handleUndo\<close> and \<open>handleRedo\<close> read \<open>historyState\<close> of the render in which the
  handler was created; the model takes it to be the current state.
\<close>

definition handleUndo :: "('r, 'i) browser \<Rightarrow> ('r, 'i) home \<Rightarrow> ('r, 'i) home" where
  "handleUndo B s =
     (if index (historyState s) \<le> 0 then s
      else
        let newIndex = index (historyState s) - 1;
            s1 = restoreCanvasState B (js_nth (stack (historyState s)) newIndex) s
        in s1\<lparr>historyState := (historyState s1)\<lparr>index := newIndex\<rparr>\<rparr>)"

definition handleRedo :: "('r, 'i) browser \<Rightarrow> ('r, 'i) home \<Rightarrow> ('r, 'i) home" where
  "handleRedo B s =
     (if index (historyState s) \<ge> int (length (stack (historyState s))) - 1 then s
      else
        let newIndex = index (historyState s) + 1;
            s1 = restoreCanvasState B (js_nth (stack (historyState s)) newIndex) s
        in s1\<lparr>historyState := (historyState s1)\<lparr>index := newIndex\<rparr>\<rparr>)"

text \<open>The canvas element is declared with \<open>width={960} height={540}\<close>.\<close>

definition canvas_width :: jsnum where
  "canvas_width = Fin 960"

definition canvas_height :: jsnum where
  "canvas_height = Fin 540"

text \<open>The effect that initialises canvas and history after mounting.\<close>

definition initCanvas :: "('r, 'i) browser \<Rightarrow> ('r, 'i) home \<Rightarrow> ('r, 'i) home" where
  "initCanvas B s =
     (case canvas s of
        None \<Rightarrow> s
      | Some c \<Rightarrow>
          let c1 = fillWhite B c
          in s\<lparr>canvas := Some c1,
               historyState := \<lparr>stack = [toDataURL B c1], index = 0\<rparr>\<rparr>)"

text \<open>The component as first rendered around a canvas \<open>c\<close>, with the API key found in
  local storage (empty when there is none), after its mount effects.\<close>

definition mounted :: "('r, 'i) browser \<Rightarrow> 'r \<Rightarrow> string \<Rightarrow> ('r, 'i) home" where
  "mounted B c storedApiKey =
     initCanvas B
       \<lparr>canvas = Some c, backgroundImage = None, generatedImage = None,
        historyState = initialHistory, isDrawing = False, penColor = ''#000000'',
        prompt = [], apiKey = storedApiKey,
        selectedModel = ''gemini-2.5-flash-image-preview'', isLoading = False,
        showApiKeyModal = (storedApiKey = []), showErrorModal = False,
        errorMessage = []\<rparr>"

definition drawImageToCanvas :: "('r, 'i) browser \<Rightarrow> ('r, 'i) home \<Rightarrow> ('r, 'i) home" where
  "drawImageToCanvas B s =
     (case canvas s of
        None \<Rightarrow> s
      | Some c \<Rightarrow>
          (case backgroundImage s of
             None \<Rightarrow> s
           | Some bg \<Rightarrow>
               s\<lparr>canvas :=
                    Some (drawImage B bg [Fin 0, Fin 0, canvas_width, canvas_height]
                            (fillWhite B c))\<rparr>))"

text \<open>
  The effect with dependency list \<open>[generatedImage]\<close>, and \<open>setGeneratedImage\<close>:
  React runs the effect only when the value differs from the one of the previous
  render.
\<close>

definition generatedImageEffect :: "('r, 'i) browser \<Rightarrow> ('r, 'i) home \<Rightarrow> ('r, 'i) home" where
  "generatedImageEffect B s =
     (if truthy (generatedImage s) \<and> canvas s \<noteq> None
      then (case loadImage B (the (generatedImage s)) of
              None \<Rightarrow> s
            | Some img \<Rightarrow>
                saveCanvasState B (drawImageToCanvas B (s\<lparr>backgroundImage := Some img\<rparr>)))
      else s)"

definition setGeneratedImage ::
  "('r, 'i) browser \<Rightarrow> string option \<Rightarrow> ('r, 'i) home \<Rightarrow> ('r, 'i) home" where
  "setGeneratedImage B v s =
     (if generatedImage s = v then s
      else generatedImageEffect B (s\<lparr>generatedImage := v\<rparr>))"

subsection \<open>Pointer coordinates\<close>

text \<open>
  \<open>getBoundingClientRect()\<close> of the canvas, and the native event: a mouse event has
  \<open>offsetX\<close>/\<open>offsetY\<close> and no \<open>touches\<close>; a touch event has a list of touches with
  \<open>clientX\<close>/\<open>clientY\<close> and no \<open>offsetX\<close>/\<open>offsetY\<close>.
\<close>

record domRect =
  rect_left :: jsnum
  rect_top :: jsnum
  rect_width :: jsnum
  rect_height :: jsnum

datatype nativeEvent = MouseEvent jsnum jsnum | TouchEvent "(jsnum \<times> jsnum) list"

fun offsetX :: "nativeEvent \<Rightarrow> jsnum option" where
  "offsetX (MouseEvent x y) = Some x"
| "offsetX (TouchEvent ts) = None"

fun offsetY :: "nativeEvent \<Rightarrow> jsnum option" where
  "offsetY (MouseEvent x y) = Some y"
| "offsetY (TouchEvent ts) = None"

text \<open>\<open>touches?.[0]?.clientX\<close> and \<open>touches?.[0]?.clientY\<close>\<close>

fun touch0_clientX :: "nativeEvent \<Rightarrow> jsnum option" where
  "touch0_clientX (MouseEvent x y) = None"
| "touch0_clientX (TouchEvent []) = None"
| "touch0_clientX (TouchEvent (t # ts)) = Some (fst t)"

fun touch0_clientY :: "nativeEvent \<Rightarrow> jsnum option" where
  "touch0_clientY (MouseEvent x y) = None"
| "touch0_clientY (TouchEvent []) = None"
| "touch0_clientY (TouchEvent (t # ts)) = Some (snd t)"

text \<open>\<open>getCoordinates\<close> for a canvas of internal size \<open>(cw, ch)\<close>.\<close>

definition getCoordinates :: "jsnum \<Rightarrow> jsnum \<Rightarrow> domRect \<Rightarrow> nativeEvent \<Rightarrow> jsnum \<times> jsnum" where
  "getCoordinates cw ch rect e =
     (let scaleX = js_div cw (rect_width rect);
          scaleY = js_div ch (rect_height rect)
      in (js_mul (js_or (offsetX e) (js_sub_undef (touch0_clientX e) (rect_left rect))) scaleX,
          js_mul (js_or (offsetY e) (js_sub_undef (touch0_clientY e) (rect_top rect))) scaleY))"

subsection \<open>Drawing, clearing, importing\<close>

text \<open>
  The handlers below dereference \<open>canvasRef.current\<close> without a check where the
  source does; with a null ref the source throws before any update, and the model
  returns the state as it was.
\<close>

definition startDrawing ::
  "('r, 'i) browser \<Rightarrow> domRect \<Rightarrow> nativeEvent \<Rightarrow> ('r, 'i) home \<Rightarrow> ('r, 'i) home" where
  "startDrawing B rect e s =
     (case canvas s of
        None \<Rightarrow> s
      | Some c \<Rightarrow>
          let p = getCoordinates canvas_width canvas_height rect e
          in s\<lparr>canvas := Some (moveTo B (fst p) (snd p) c), isDrawing := True\<rparr>)"

definition draw ::
  "('r, 'i) browser \<Rightarrow> domRect \<Rightarrow> nativeEvent \<Rightarrow> ('r, 'i) home \<Rightarrow> ('r, 'i) home" where
  "draw B rect e s =
     (if \<not> isDrawing s then s
      else (case canvas s of
              None \<Rightarrow> s
            | Some c \<Rightarrow>
                let p = getCoordinates canvas_width canvas_height rect e
                in s\<lparr>canvas := Some (strokeTo B (penColor s) (fst p) (snd p) c)\<rparr>))"

definition stopDrawing :: "('r, 'i) browser \<Rightarrow> ('r, 'i) home \<Rightarrow> ('r, 'i) home" where
  "stopDrawing B s =
     (if \<not> isDrawing s then s else saveCanvasState B (s\<lparr>isDrawing := False\<rparr>))"

definition clearCanvas :: "('r, 'i) browser \<Rightarrow> ('r, 'i) home \<Rightarrow> ('r, 'i) home" where
  "clearCanvas B s =
     (case canvas s of
        None \<Rightarrow> s
      | Some c \<Rightarrow>
          let s1 = saveCanvasState B (s\<lparr>canvas := Some (fillWhite B c)\<rparr>)
          in (setGeneratedImage B None s1)\<lparr>backgroundImage := None\<rparr>)"

text \<open>The placement computed in \<open>handleImageImport\<close> for a canvas \<open>(cw, ch)\<close> and an
  image \<open>(iw, ih)\<close>.\<close>

definition fitRatio :: "jsnum \<Rightarrow> jsnum \<Rightarrow> jsnum \<Rightarrow> jsnum \<Rightarrow> jsnum" where
  "fitRatio cw ch iw ih =
     (let hRatio = js_div cw iw; vRatio = js_div ch ih in js_min hRatio vRatio)"

definition centerShiftX :: "jsnum \<Rightarrow> jsnum \<Rightarrow> jsnum \<Rightarrow> jsnum \<Rightarrow> jsnum" where
  "centerShiftX cw ch iw ih =
     js_div (js_sub cw (js_mul iw (fitRatio cw ch iw ih))) (Fin 2)"

definition centerShiftY :: "jsnum \<Rightarrow> jsnum \<Rightarrow> jsnum \<Rightarrow> jsnum \<Rightarrow> jsnum" where
  "centerShiftY cw ch iw ih =
     js_div (js_sub ch (js_mul ih (fitRatio cw ch iw ih))) (Fin 2)"

text \<open>The arguments of the nine-argument \<open>ctx.drawImage\<close> call, after the image.\<close>

definition importDrawArgs :: "jsnum \<Rightarrow> jsnum \<Rightarrow> jsnum \<Rightarrow> jsnum \<Rightarrow> jsnum list" where
  "importDrawArgs cw ch iw ih =
     [Fin 0, Fin 0, iw, ih,
      centerShiftX cw ch iw ih, centerShiftY cw ch iw ih,
      js_mul iw (fitRatio cw ch iw ih), js_mul ih (fitRatio cw ch iw ih)]"

text \<open>\<open>file\<close> is the data URL that the file reader delivers for the chosen file,
  \<open>None\<close> when no file was chosen.\<close>

definition handleImageImport ::
  "('r, 'i) browser \<Rightarrow> string option \<Rightarrow> ('r, 'i) home \<Rightarrow> ('r, 'i) home" where
  "handleImageImport B file s =
     (case file of
        None \<Rightarrow> s
      | Some url \<Rightarrow>
          (case loadImage B url of
             None \<Rightarrow> s
           | Some img \<Rightarrow>
               (case canvas s of
                  None \<Rightarrow> s
                | Some c \<Rightarrow>
                    let c1 = fillWhite B c;
                        c2 = drawImage B img
                               (importDrawArgs canvas_width canvas_height
                                  (imageWidth B img) (imageHeight B img)) c1;
                        s1 = saveCanvasState B (s\<lparr>canvas := Some c2\<rparr>)
                    in (setGeneratedImage B None s1)\<lparr>backgroundImage := None\<rparr>)))"

subsection \<open>Submitting to the generation service\<close>

text \<open>The request passed to \<open>ai.models.generateContent\<close>.\<close>

datatype requestPart = TextPart string | InlineData string string

record content =
  role :: string
  parts :: "requestPart list"

record request =
  model :: string
  contents :: "content list"
  responseModalities :: "string list"

text \<open>\<open>tempCanvas.toDataURL('image/png').split(',')[1]\<close>\<close>

definition drawingDataOf :: "string \<Rightarrow> string option" where
  "drawingDataOf url = js_nth (split_comma url) 1"

definition buildContents :: "string \<Rightarrow> string option \<Rightarrow> content list" where
  "buildContents p drawingData =
     (if truthy drawingData
      then [\<lparr>role = ''USER'', parts = [InlineData (the drawingData) ''image/png'']\<rparr>,
            \<lparr>role = ''USER'',
             parts = [TextPart (p @ ''. Keep the same minimal line drawing style.'')]\<rparr>]
      else [\<lparr>role = ''USER'', parts = [TextPart p]\<rparr>])"

text \<open>
  A part of the first candidate of the response: its \<open>text\<close> and its \<open>inlineData\<close>,
  each possibly absent; the \<open>data\<close> of an \<open>inlineData\<close> may be absent too. The
  awaited call either throws or returns the parts. What is thrown is \<open>null\<close> or
  \<open>undefined\<close> (\<open>Nullish\<close>), or any other value, with its \<open>message\<close> if it has one.
  A response whose \<open>candidates[0].content.parts\<close> cannot be read throws a TypeError
  inside the same \<open>try\<close> block and is a \<open>Throws\<close> as well.
\<close>

datatype blob = Blob (blob_data: "string option")

datatype part = Part (part_text: "string option") (part_inlineData: "blob option")

datatype thrown = Nullish | Thrown "string option"

datatype outcome = Throws thrown | Returns "part list"

record genData =
  success :: bool
  message :: string
  imageData :: "string option"

text \<open>
  One round of the loop over the parts. Reading \<open>imageData.length\<close> of an
  \<open>inlineData\<close> without \<open>data\<close> throws a TypeError: the result is \<open>None\<close> and the
  loop ends there.
\<close>

definition readPart :: "genData \<Rightarrow> part \<Rightarrow> genData option" where
  "readPart d p =
     (if truthy (part_text p) then Some (d\<lparr>message := the (part_text p)\<rparr>)
      else (case part_inlineData p of
              None \<Rightarrow> Some d
            | Some (Blob None) \<Rightarrow> None
            | Some (Blob (Some img)) \<Rightarrow> Some (d\<lparr>imageData := Some img\<rparr>)))"

fun readPartsFrom :: "genData \<Rightarrow> part list \<Rightarrow> genData option" where
  "readPartsFrom d [] = Some d"
| "readPartsFrom d (p # ps) =
     (case readPart d p of
        None \<Rightarrow> None
      | Some d' \<Rightarrow> readPartsFrom d' ps)"

definition readParts :: "part list \<Rightarrow> genData option" where
  "readParts ps = readPartsFrom \<lparr>success = True, message = [], imageData = None\<rparr> ps"

text \<open>
  The loop takes a part with a non-empty \<open>text\<close> as text, and any other part that
  has \<open>inlineData\<close> as an image: \<open>partImage\<close> is the image data the loop reads from
  a part, \<open>throwsPart\<close> holds of a part at which the loop throws.
\<close>

definition partImage :: "part \<Rightarrow> string option" where
  "partImage p =
     (if truthy (part_text p) then None
      else (case part_inlineData p of
              None \<Rightarrow> None
            | Some (Blob d) \<Rightarrow> d))"

definition isImagePart :: "part \<Rightarrow> bool" where
  "isImagePart p = (partImage p \<noteq> None)"

definition throwsPart :: "part \<Rightarrow> bool" where
  "throwsPart p = (\<not> truthy (part_text p) \<and> part_inlineData p = Some (Blob None))"

definition imageParts :: "part list \<Rightarrow> part list" where
  "imageParts ps = filter isImagePart ps"

definition textParts :: "part list \<Rightarrow> part list" where
  "textParts ps = filter (\<lambda>p. truthy (part_text p)) ps"

text \<open>
  \<open>handleSubmit\<close> up to the \<open>await\<close>: the state it leaves and the request it
  issues, \<open>None\<close> when it returns without calling the service.
\<close>

definition handleSubmit_request ::
  "('r, 'i) browser \<Rightarrow> ('r, 'i) home \<Rightarrow> ('r, 'i) home \<times> request option" where
  "handleSubmit_request B s =
     (if apiKey s = [] then (s\<lparr>showApiKeyModal := True\<rparr>, None)
      else (case canvas s of
              None \<Rightarrow> (s, None)
            | Some c \<Rightarrow>
                let drawingData = drawingDataOf (toDataURL B (compositeOnWhite B c))
                in (s\<lparr>isLoading := True\<rparr>,
                    Some \<lparr>model = selectedModel s,
                          contents = buildContents (prompt s) drawingData,
                          responseModalities = [''TEXT'', ''IMAGE'']\<rparr>)))"

text \<open>
  How the handler ends, besides the state it leaves: quietly, with the \<open>alert\<close> of
  the no-image branch, or with its promise rejected because the \<open>catch\<close> block itself
  threw.
\<close>

datatype ending = Quiet | Alert string | Rejects

text \<open>
  The \<open>catch\<close> block followed by \<open>finally\<close>. Reading \<open>error.message\<close> of \<open>null\<close>
  or \<open>undefined\<close> throws: no error state is set, only \<open>finally\<close> runs.
\<close>

definition catchError :: "thrown \<Rightarrow> ('r, 'i) home \<Rightarrow> ('r, 'i) home \<times> ending" where
  "catchError e s =
     (case e of
        Nullish \<Rightarrow> (s\<lparr>isLoading := False\<rparr>, Rejects)
      | Thrown msg \<Rightarrow>
          (s\<lparr>errorMessage := (if truthy msg then the msg else ''An unexpected error occurred.''),
             showErrorModal := True,
             isLoading := False\<rparr>, Quiet))"

text \<open>
  \<open>handleSubmit\<close> from the \<open>await\<close> on: the \<open>try\<close> body after the call, the
  \<open>catch\<close> and the \<open>finally\<close>. The TypeError of the loop carries the message the
  engine gives it.
\<close>

definition handleSubmit_settle ::
  "('r, 'i) browser \<Rightarrow> outcome \<Rightarrow> ('r, 'i) home \<Rightarrow> ('r, 'i) home \<times> ending" where
  "handleSubmit_settle B out s =
     (case out of
        Throws e \<Rightarrow> catchError e s
      | Returns ps \<Rightarrow>
          (case readParts ps of
             None \<Rightarrow> catchError (Thrown (Some (typeErrorMessage B))) s
           | Some d \<Rightarrow>
               if success d \<and> truthy (imageData d)
               then ((setGeneratedImage B
                        (Some (''data:image/png;base64,'' @ the (imageData d))) s)
                       \<lparr>isLoading := False\<rparr>, Quiet)
               else (s\<lparr>isLoading := False\<rparr>,
                     Alert ''Failed to generate image. Please try again.'')))"

definition handleSubmit_response ::
  "('r, 'i) browser \<Rightarrow> outcome \<Rightarrow> ('r, 'i) home \<Rightarrow> ('r, 'i) home" where
  "handleSubmit_response B out s = fst (handleSubmit_settle B out s)"

text \<open>The whole handler, with the service as a function from requests to outcomes:
  the state it leaves and how it ends.\<close>

definition handleSubmit_run ::
  "('r, 'i) browser \<Rightarrow> (request \<Rightarrow> outcome) \<Rightarrow> ('r, 'i) home \<Rightarrow> ('r, 'i) home \<times> ending" where
  "handleSubmit_run B service s =
     (case handleSubmit_request B s of
        (s1, None) \<Rightarrow> (s1, Quiet)
      | (s1, Some req) \<Rightarrow> handleSubmit_settle B (service req) s1)"

definition handleSubmit ::
  "('r, 'i) browser \<Rightarrow> (request \<Rightarrow> outcome) \<Rightarrow> ('r, 'i) home \<Rightarrow> ('r, 'i) home" where
  "handleSubmit B service s = fst (handleSubmit_run B service s)"

text \<open>The tests \<open>ErrorDisplay\<close> applies to the message it is given.\<close>

definition isQuotaError :: "string \<Rightarrow> bool" where
  "isQuotaError msg = test_ci ''quota'' msg"

definition isApiKeyError :: "string \<Rightarrow> bool" where
  "isApiKeyError msg = test_ci ''API key not valid'' msg"

definition isHostError :: "string \<Rightarrow> bool" where
  "isHostError msg = test_ci ''origin is not allowed'' msg"

text \<open>The help boxes \<open>ErrorDisplay\<close> renders under the message.\<close>

datatype helpBox = PermissionOrQuotaHelp | InvalidApiKeyHelp

definition errorHelp :: "string \<Rightarrow> helpBox list" where
  "errorHelp msg =
     (if isQuotaError msg \<or> isHostError msg then [PermissionOrQuotaHelp] else []) @
     (if isApiKeyError msg then [InvalidApiKeyHelp] else [])"

subsection \<open>Runs of the component\<close>

text \<open>
  The events the component reacts to. A submission is two events, the form submit
  and the later arrival of the outcome, so that other events can come in between.
\<close>

datatype event =
    PointerDown domRect nativeEvent
  | PointerMove domRect nativeEvent
  | PointerUp
  | Clear
  | Undo
  | Redo
  | ImportFile "string option"
  | Submit
  | Outcome outcome

fun handle :: "('r, 'i) browser \<Rightarrow> ('r, 'i) home \<Rightarrow> event \<Rightarrow> ('r, 'i) home" where
  "handle B s (PointerDown rect e) = startDrawing B rect e s"
| "handle B s (PointerMove rect e) = draw B rect e s"
| "handle B s PointerUp = stopDrawing B s"
| "handle B s Clear = clearCanvas B s"
| "handle B s Undo = handleUndo B s"
| "handle B s Redo = handleRedo B s"
| "handle B s (ImportFile file) = handleImageImport B file s"
| "handle B s Submit = fst (handleSubmit_request B s)"
| "handle B s (Outcome out) = handleSubmit_response B out s"

definition run :: "('r, 'i) browser \<Rightarrow> ('r, 'i) home \<Rightarrow> event list \<Rightarrow> ('r, 'i) home" where
  "run B s evs = foldl (handle B) s evs"

text \<open>The invariant of the history: a non-empty stack and an index inside it.\<close>

definition history_ok :: "history \<Rightarrow> bool" where
  "history_ok h = (stack h \<noteq> [] \<and> 0 \<le> index h \<and> index h < int (length (stack h)))"

subsection \<open>A concrete browser and concrete states\<close>

text \<open>
  For evaluating the handlers: a raster and an image are named by the base64 payload
  of their PNG encoding, and drawing an image leaves that image as the content.
  \<open>white_png\<close> is a PNG encoding (RGBA, 8 bit, deflate level 9) of the all-white
  960 by 540 raster.
\<close>

definition white_png :: string where
  "white_png =
     ''iVBORw0KGgoAAAANSUhEUgAAA8AAAAIcCAYAAAA5Xcd7AAAK3ElEQVR42u3XMQEAAAzCMPybBhd7'' @
     ''lkjo1xQAAAAeiAQAAAAYYAAAADDAAAAAYIABAADAAAMAAIABBgAAAAMMAAAABhgAAAAMMAAAAAYY'' @
     ''AAAADDAAAAAYYAAAADDAAAAAYIABAADAAAMAAIABBgAAAAMMAAAABhgAAAADDAAAAAYYAAAADDAA'' @
     ''AAAYYAAAADDAAAAAYIABAADAAAMAAIABBgAAAAMMAACAAQYAAAADDAAAAAYYAAAADDAAAAAYYAAA'' @
     ''ADDAAAAAYIABAADAAAMAAIABBgAAwAADAACAAQYAAAADDAAAAAYYAAAADDAAAAAYYAAAADDAAAAA'' @
     ''YIABAADAAAMAAGCAAQAAwAADAACAAQYAAAADDAAAAAYYAAAADDAAAAAYYAAAADDAAAAAYIABAAAw'' @
     ''wAAAAGCAAQAAwAADAACAAQYAAAADDAAAAAYYAAAADDAAAAAYYAAAADDAAAAAGGAAAAAwwAAAAGCA'' @
     ''AQAAwAADAACAAQYAAAADDAAAAAYYAAAADDAAAAAYYAAAAAwwAAAAGGAAAAAwwAAAAGCAAQAAwAAD'' @
     ''AACAAQYAAAADDAAAAAYYAAAADDAAAAAGGAAAAAwwAAAAGGAAAAAwwAAAAGCAAQAAwAADAACAAQYA'' @
     ''AAADDAAAgAEGAAAAAwwAAAAGGAAAAAwwAAAAGGAAAAAwwAAAAGCAAQAAwAADAACAAQYAAMAAAwAA'' @
     ''gAEGAAAAAwwAAAAGGAAAAAwwAAAAGGAAAAAwwAAAAGCAAQAAwAADAABggAEAAMAAAwAAgAEGAAAA'' @
     ''AwwAAAAGGAAAAAwwAAAAGGAAAAAwwAAAAGCAAQAAMMAAAABggAEAAMAAAwAAgAEGAAAAAwwAAAAG'' @
     ''GAAAAAwwAAAAGGAAAAAwwAAAABhgAAAAMMAAAABggAEAAMAAAwAAgAEGAAAAAwwAAAAGGAAAAAww'' @
     ''AAAAGGAAAAAMMAAAABhgAAAAMMAAAABggAEAAMAAAwAAgAEGAAAAAwwAAAAGGAAAAAwwAAAABhgA'' @
     ''AAAMMAAAABhgAAAAMMAAAABggAEAAMAAAwAAgAEGAAAAAwwAAAAGGAAAAAMMAAAABhgAAAAMMAAA'' @
     ''ABhgAAAAMMAAAABggAEAAMAAAwAAgAEGAAAAAwwAAIABBgAAAAMMAAAABhgAAAAMMAAAABhgAAAA'' @
     ''MMAAAABggAEAAMAAAwAAgAEGAADAAAMAAIABBgAAAAMMAAAABhgAAAAMMAAAABhgAAAAMMAAAABg'' @
     ''gAEAADDAAAAAYIABAADAAAMAAIABBgAAAAMMAAAABhgAAAAMMAAAABhgAAAAMMAAAAAYYAAAADDA'' @
     ''AAAAYIABAADAAAMAAIABBgAAAAMMAAAABhgAAAAMMAAAABhgAAAADDAAAAAYYAAAADDAAAAAYIAB'' @
     ''AADAAAMAAIABBgAAAAMMAAAABhgAAAAMMAAAAAYYAAAADDAAAAAYYAAAADDAAAAAYIABAADAAAMA'' @
     ''AIABBgAAAAMMAAAABhgAAAADDAAAAAYYAAAADDAAAAAYYAAAADDAAAAAYIABAADAAAMAAIABBgAA'' @
     ''AAMMAACAAQYAAAADDAAAAAYYAAAADDAAAAAYYAAAADDAAAAAYIABAADAAAMAAIABBgAAwAADAACA'' @
     ''AQYAAAADDAAAAAYYAAAADDAAAAAYYAAAADDAAAAAYIABAADAAAMAAGCAAQAAwAADAACAAQYAAAAD'' @
     ''DAAAAAYYAAAADDAAAAAYYAAAADDAAAAAYIABAAAwwAAAAGCAAQAAwAADAACAAQYAAAADDAAAAAYY'' @
     ''AAAADDAAAAAYYAAAAAywBAAAABhgAAAAMMAAAABggAEAAMAAAwAAgAEGAAAAAwwAAAAGGAAAAAww'' @
     ''AAAABhgAAAAMMAAAABhgAAAAMMAAAABggAEAAMAAAwAAgAEGAAAAAwwAAAAGGAAAAAMMAAAABhgA'' @
     ''AAAMMAAAABhgAAAAMMAAAABggAEAAMAAAwAAgAEGAAAAAwwAAIABBgAAAAMMAAAABhgAAAAMMAAA'' @
     ''ABhgAAAAMMAAAABggAEAAMAAAwAAgAEGAADAAAMAAIABBgAAAAMMAAAABhgAAAAMMAAAABhgAAAA'' @
     ''MMAAAABggAEAAMAAAwAAYIABAADAAAMAAIABBgAAAAMMAAAABhgAAAAMMAAAABhgAAAAMMAAAABg'' @
     ''gAEAADDAAAAAYIABAADAAAMAAIABBgAAAAMMAAAABhgAAAAMMAAAABhgAAAAMMAAAAAYYAAAADDA'' @
     ''AAAAYIABAADAAAMAAIABBgAAAAMMAAAABhgAAAAMMAAAABhgAAAADDAAAAAYYAAAADDAAAAAYIAB'' @
     ''AADAAAMAAIABBgAAAAMMAAAABhgAAAAMMAAAAAYYAAAADDAAAAAYYAAAADDAAAAAYIABAADAAAMA'' @
     ''AIABBgAAAAMMAACAAQYAAAADDAAAAAYYAAAADDAAAAAYYAAAADDAAAAAYIABAADAAAMAAIABBgAA'' @
     ''wAADAACAAQYAAAADDAAAAAYYAAAADDAAAAAYYAAAADDAAAAAYIABAADAAAMAAGCAAQAAwAADAACA'' @
     ''AQYAAAADDAAAAAYYAAAADDAAAAAYYAAAADDAAAAAYIABAAAwwAAAAGCAAQAAwAADAACAAQYAAAAD'' @
     ''DAAAAAYYAAAADDAAAAAYYAAAADDAAAAAGGAAAAAwwAAAAGCAAQAAwAADAACAAQYAAAADDAAAAAYY'' @
     ''AAAADDAAAAAYYAAAAAwwAAAAGGAAAAAwwAAAAGCAAQAAwAADAACAAQYAAAADDAAAAAYYAAAADDAA'' @
     ''AAAGGAAAAAwwAAAAGGAAAAAwwAAAAGCAAQAAwAADAACAAQYAAAADDAAAAAYYAAAAAwwAAAAGGAAA'' @
     ''AAwwAAAAGGAAAAAwwAAAAGCAAQAAwAADAACAAQYAAAADDAAAgAEGAAAAAwwAAAAGGAAAAAwwAAAA'' @
     ''GGAAAAAwwAAAAGCAAQAAwAADAACAAQYAAMAAAwAAgAEGAAAAAwwAAAAGGAAAAAwwAAAAGGAAAAAw'' @
     ''wAAAAGCAAQAAMMAAAABggAEAAMAAAwAAgAEGAAAAAwwAAAAGGAAAAAwwAAAAGGAAAAAwwAAAABhg'' @
     ''AAAAMMAAAABggAEAAMAAAwAAgAEGAAAAAwwAAAAGGAAAAAwwAAAAGGAAAAAMMAAAABhgAAAAMMAA'' @
     ''AABggAEAAMAAAwAAgAEGAAAAAwwAAAAGGAAAAAwwAAAABhgAAAAMMAAAABhgAAAAMMAAAABggAEA'' @
     ''AMAAAwAAgAEGAAAAAwwAAAAGGAAAAAMMAAAABhgAAAAMMAAAABhgAAAAMMAAAABggAEAAMAAAwAA'' @
     ''gAEGAAAAAwwAAIABBgAAAAMMAAAABhgAAAAMMAAAABhgAAAAMMAAAABggAEAAMAAAwAAgAEGAADA'' @
     ''AAMAAIABBgAAAAMMAAAABhgAAAAMMAAAABhgAAAAMMAAAABggAEAAMAAAwAAYIABAADAAAMAAIAB'' @
     ''BgAAAAMMAAAABhgAAAAMMAAAABhgAAAAMMAAAABggAEAADDAAAAAYIABAADAAAMAAIABBgAAAAMM'' @
     ''AAAABhgAAAAMMAAAABhgAAAADLAEAAAAGGAAAAAwwAAAAGCAAQAAwAADAACAAQYAAAADDAAAAAYY'' @
     ''AAAADDAAAAAGGAAAAAwwAAAAGGAAAAAwwAAAAGCAAQAAwAADAACAAQYAAAADDAAAAAYYAAAAAwwA'' @
     ''AAAGGAAAAAwwAAAAGGAAAAAwwAAAAHBnPe802+0rZP8AAAAASUVORK5CYII=''"

definition demo_browser :: "(string, string) browser" where
  "demo_browser =
     \<lparr>toDataURL = (\<lambda>r. ''data:image/png;base64,'' @ r),
      fillWhite = (\<lambda>r. white_png),
      clearRect = (\<lambda>r. []),
      drawImage = (\<lambda>img args r. img),
      compositeOnWhite = (\<lambda>r. r),
      loadImage = (\<lambda>url. Some (drop 22 url)),
      imageWidth = (\<lambda>img. Fin 960),
      imageHeight = (\<lambda>img. Fin 540),
      moveTo = (\<lambda>x y r. r),
      strokeTo = (\<lambda>colour x y r. r),
      typeErrorMessage = ''Cannot read properties of undefined (reading 'length')''\<rparr>"

text \<open>A state with three snapshots, positioned at the last one.\<close>

definition demo_home :: "(string, string) home" where
  "demo_home =
     \<lparr>canvas = Some ''c2'', backgroundImage = None, generatedImage = None,
      historyState =
        \<lparr>stack = [''data:image/png;base64,c0'', ''data:image/png;base64,c1'',
                  ''data:image/png;base64,c2''],
         index = 2\<rparr>,
      isDrawing = False, penColor = ''#000000'', prompt = ''draw a red circle'',
      apiKey = ''key'', selectedModel = ''gemini-2.5-flash-image-preview'',
      isLoading = False, showApiKeyModal = False, showErrorModal = False,
      errorMessage = []\<rparr>"

text \<open>The same state after two undos: positioned at the first snapshot.\<close>

definition demo_first :: "(string, string) home" where
  "demo_first = demo_home\<lparr>historyState := (historyState demo_home)\<lparr>index := 0\<rparr>\<rparr>"

text \<open>The freshly mounted component, nothing drawn, with a credential and a prompt.\<close>

definition demo_untouched :: "(string, string) home" where
  "demo_untouched = (mounted demo_browser [] ''key'')\<lparr>prompt := ''draw a red circle''\<rparr>"

text \<open>A browser whose canvas has no area: \<open>toDataURL\<close> then returns \<open>data:,\<close>.\<close>

definition demo_empty_browser :: "(string, string) browser" where
  "demo_empty_browser = demo_browser\<lparr>toDataURL := (\<lambda>r. ''data:,'')\<rparr>"

section \<open>Properties of the history\<close>

text \<open>After the \<open>await\<close>, \<open>handleSubmit\<close> leaves history and canvas as they were, or as
  \<open>setGeneratedImage\<close> leaves them.\<close>

lemma handleSubmit_response_frame:
  "(historyState (handleSubmit_response B out s) = historyState s \<and>
    canvas (handleSubmit_response B out s) = canvas s) \<or>
   (\<exists>v. historyState (handleSubmit_response B out s)
            = historyState (setGeneratedImage B v s) \<and>
        canvas (handleSubmit_response B out s) = canvas (setGeneratedImage B v s))"
proof (cases out)
  case (Throws e)
  then show ?thesis
    by (cases e) (simp_all add: handleSubmit_response_def handleSubmit_settle_def catchError_def)
next
  case (Returns ps)
  show ?thesis
  proof (cases "readParts ps")
    case None
    then show ?thesis using Returns
      by (simp add: handleSubmit_response_def handleSubmit_settle_def catchError_def)
  next
    case (Some d)
    show ?thesis
    proof (cases "success d \<and> truthy (imageData d)")
      case True
      then have "handleSubmit_response B out s
          = (setGeneratedImage B (Some (''data:image/png;base64,'' @ the (imageData d))) s)
              \<lparr>isLoading := False\<rparr>"
        using Returns Some by (simp add: handleSubmit_response_def handleSubmit_settle_def)
      then show ?thesis
        by (intro disjI2 exI[of _ "Some (''data:image/png;base64,'' @ the (imageData d))"])
           simp
    next
      case False
      then have "handleSubmit_response B out s = s\<lparr>isLoading := False\<rparr>"
        using Returns Some
        by (simp only: handleSubmit_response_def handleSubmit_settle_def outcome.case
              option.case if_False fst_conv)
      then show ?thesis by simp
    qed
  qed
qed

lemma js_slice_from_0: "0 \<le> n \<Longrightarrow> js_slice xs 0 n = take (nat n) xs"
  by (simp add: js_slice_def Let_def min_def)

lemma js_nth_in_range:
  "0 \<le> i \<Longrightarrow> i < int (length xs) \<Longrightarrow> js_nth xs i = Some (xs ! nat i)"
  by (simp add: js_nth_def)

lemma pushSnapshot_stack:
  "- 1 \<le> index h \<Longrightarrow> stack (pushSnapshot d h) = take (nat (index h + 1)) (stack h) @ [d]"
  by (simp add: pushSnapshot_def Let_def js_slice_from_0)

lemma pushSnapshot_index:
  "index (pushSnapshot d h) = int (length (stack (pushSnapshot d h))) - 1"
  by (simp add: pushSnapshot_def Let_def)

lemma pushSnapshot_last: "last (stack (pushSnapshot d h)) = d"
  by (simp add: pushSnapshot_def Let_def)

lemma history_ok_pushSnapshot: "history_ok (pushSnapshot d h)"
  by (simp add: history_ok_def pushSnapshot_def Let_def)

lemma saveCanvasState_history:
  "canvas s = Some c \<Longrightarrow>
   historyState (saveCanvasState B s) = pushSnapshot (toDataURL B c) (historyState s)"
  by (simp add: saveCanvasState_def)

lemma restoreCanvasState_history [simp]:
  "historyState (restoreCanvasState B u s) = historyState s"
  by (simp add: restoreCanvasState_def split: option.splits)

lemma restoreCanvasState_canvas_None [simp]:
  "canvas (restoreCanvasState B u s) = None \<longleftrightarrow> canvas s = None"
  by (simp add: restoreCanvasState_def split: option.splits)

lemma restoreCanvasState_canvas:
  "canvas s = Some c \<Longrightarrow> u \<noteq> [] \<Longrightarrow> loadImage B u = Some img \<Longrightarrow>
   canvas (restoreCanvasState B (Some u) s)
     = Some (drawImage B img [Fin 0, Fin 0] (clearRect B c))"
  by (simp add: restoreCanvasState_def)

lemma handleUndo_stack: "stack (historyState (handleUndo B s)) = stack (historyState s)"
  by (simp add: handleUndo_def Let_def)

lemma handleRedo_stack: "stack (historyState (handleRedo B s)) = stack (historyState s)"
  by (simp add: handleRedo_def Let_def)

lemma handleUndo_index:
  "index (historyState (handleUndo B s)) =
     (if index (historyState s) \<le> 0 then index (historyState s)
      else index (historyState s) - 1)"
  by (simp add: handleUndo_def Let_def)

lemma handleRedo_index:
  "index (historyState (handleRedo B s)) =
     (if index (historyState s) \<ge> int (length (stack (historyState s))) - 1
      then index (historyState s) else index (historyState s) + 1)"
  by (simp add: handleRedo_def Let_def)

lemma handleUndo_canvas_None [simp]: "canvas (handleUndo B s) = None \<longleftrightarrow> canvas s = None"
  by (simp add: handleUndo_def Let_def)

text \<open>Repeated undo: the stack and the presence of the canvas stay, the index moves
  down as long as it can.\<close>

lemma undos_stack: "stack (historyState ((handleUndo B ^^ k) s)) = stack (historyState s)"
  by (induction k) (simp_all add: handleUndo_stack)

lemma undos_canvas_None: "canvas ((handleUndo B ^^ k) s) = None \<longleftrightarrow> canvas s = None"
  by (induction k) simp_all

lemma undos_index:
  "int k \<le> index (historyState s) \<Longrightarrow>
   index (historyState ((handleUndo B ^^ k) s)) = index (historyState s) - int k"
  by (induction k) (simp_all add: handleUndo_index)

text \<open>
  Claim C1. Committing a snapshot (\<open>saveCanvasState\<close>, called at stroke end, clear,
  import and after a generated image is drawn) keeps the snapshots at positions up to
  the current index, drops every later one, appends the new snapshot and points the
  index at it. Hence, from a history positioned at its last snapshot, \<open>k\<close> undos
  followed by one commit leave \<open>(length_before - k) + 1\<close> snapshots. The canvas is
  present, and the index is any value from \<open>-1\<close> (the state before initialisation)
  upwards.
\<close>

theorem saveCanvasState_truncates_then_appends:
  assumes "canvas s = Some c" and "- 1 \<le> index (historyState s)"
  shows "stack (historyState (saveCanvasState B s))
           = take (nat (index (historyState s) + 1)) (stack (historyState s)) @ [toDataURL B c]
       \<and> last (stack (historyState (saveCanvasState B s))) = toDataURL B c
       \<and> index (historyState (saveCanvasState B s))
           = int (length (stack (historyState (saveCanvasState B s)))) - 1
       \<and> (index (historyState s) = int (length (stack (historyState s))) - 1
            \<and> int k \<le> index (historyState s) \<longrightarrow>
          length (stack (historyState (saveCanvasState B ((handleUndo B ^^ k) s))))
            = (length (stack (historyState s)) - k) + 1)"
proof -
  let ?h = "historyState s"
  have a: "historyState (saveCanvasState B s) = pushSnapshot (toDataURL B c) ?h"
    using assms(1) by (rule saveCanvasState_history)
  have kpart: "length (stack (historyState (saveCanvasState B ((handleUndo B ^^ k) s))))
            = (length (stack ?h) - k) + 1"
    if head: "index ?h = int (length (stack ?h)) - 1" and k: "int k \<le> index ?h"
  proof -
    let ?u = "(handleUndo B ^^ k) s"
    obtain c' where c': "canvas ?u = Some c'"
      using undos_canvas_None[where s=s and k=k and B=B] assms(1)
      by (cases "canvas ?u") auto
    have i: "index (historyState ?u) = index ?h - int k"
      using k by (rule undos_index)
    have st: "stack (historyState ?u) = stack ?h" by (rule undos_stack)
    have "- 1 \<le> index (historyState ?u)" using i k by simp
    then have "stack (historyState (saveCanvasState B ?u))
        = take (nat (index ?h - int k + 1)) (stack ?h) @ [toDataURL B c']"
      by (simp add: saveCanvasState_history[OF c'] pushSnapshot_stack i st)
    then show ?thesis using head k by (simp add: min_def) linarith
  qed
  show ?thesis
    using a assms(2) kpart
    by (simp add: pushSnapshot_stack pushSnapshot_last pushSnapshot_index)
qed

theorem saveCanvasState_truncates_then_appends_witness:
  "canvas demo_home = Some ''c2'' \<and> - 1 \<le> index (historyState demo_home) \<and>
   index (historyState demo_home) = int (length (stack (historyState demo_home))) - 1 \<and>
   int 2 \<le> index (historyState demo_home) \<and>
   stack (historyState (saveCanvasState demo_browser demo_home))
     = [''data:image/png;base64,c0'', ''data:image/png;base64,c1'',
        ''data:image/png;base64,c2'', ''data:image/png;base64,c2''] \<and>
   length (stack (historyState
      (saveCanvasState demo_browser ((handleUndo demo_browser ^^ 2) demo_home)))) = 2"
proof -
  have h1: "canvas demo_home = Some ''c2''" by (simp add: demo_home_def)
  have h2: "- 1 \<le> index (historyState demo_home)" by (simp add: demo_home_def)
  have h3: "index (historyState demo_home) = int (length (stack (historyState demo_home))) - 1"
    by (simp add: demo_home_def)
  have h4: "int 2 \<le> index (historyState demo_home)" by (simp add: demo_home_def)
  have t: "toDataURL demo_browser ''c2'' = ''data:image/png;base64,c2''"
    by (simp add: demo_browser_def)
  have st: "stack (historyState demo_home)
      = [''data:image/png;base64,c0'', ''data:image/png;base64,c1'',
         ''data:image/png;base64,c2'']"
    by (simp add: demo_home_def)
  from saveCanvasState_truncates_then_appends[OF h1 h2, of demo_browser 2] h1 h2 h3 h4
  show ?thesis by (simp add: t st)
qed

text \<open>Each handler keeps the history invariant.\<close>

lemma history_ok_saveCanvasState:
  "history_ok (historyState s) \<Longrightarrow> history_ok (historyState (saveCanvasState B s))"
  by (cases "canvas s") (simp_all add: saveCanvasState_def history_ok_pushSnapshot)

lemma drawImageToCanvas_history [simp]:
  "historyState (drawImageToCanvas B s) = historyState s"
  by (simp add: drawImageToCanvas_def split: option.splits)

lemma history_ok_setGeneratedImage:
  "history_ok (historyState s) \<Longrightarrow> history_ok (historyState (setGeneratedImage B v s))"
  by (auto simp: setGeneratedImage_def generatedImageEffect_def
        intro!: history_ok_saveCanvasState split: option.splits)

lemma history_ok_handleUndo:
  "history_ok (historyState s) \<Longrightarrow> history_ok (historyState (handleUndo B s))"
  by (simp add: history_ok_def handleUndo_index handleUndo_stack)

lemma history_ok_handleRedo:
  "history_ok (historyState s) \<Longrightarrow> history_ok (historyState (handleRedo B s))"
  by (simp add: history_ok_def handleRedo_index handleRedo_stack)

lemma history_ok_stopDrawing:
  "history_ok (historyState s) \<Longrightarrow> history_ok (historyState (stopDrawing B s))"
  by (simp add: stopDrawing_def history_ok_saveCanvasState)

lemma history_ok_clearCanvas:
  "history_ok (historyState s) \<Longrightarrow> history_ok (historyState (clearCanvas B s))"
  by (cases "canvas s")
     (simp_all add: clearCanvas_def Let_def history_ok_setGeneratedImage
        history_ok_saveCanvasState)

lemma history_ok_handleImageImport:
  "history_ok (historyState s) \<Longrightarrow> history_ok (historyState (handleImageImport B file s))"
  by (simp add: handleImageImport_def Let_def history_ok_setGeneratedImage
        history_ok_saveCanvasState split: option.splits)

lemma startDrawing_history [simp]: "historyState (startDrawing B rect e s) = historyState s"
  by (simp add: startDrawing_def Let_def split: option.splits)

lemma draw_history [simp]: "historyState (draw B rect e s) = historyState s"
  by (simp add: draw_def Let_def split: option.splits)

lemma handleSubmit_request_history [simp]:
  "historyState (fst (handleSubmit_request B s)) = historyState s"
  by (simp add: handleSubmit_request_def Let_def split: option.splits)

lemma history_ok_handleSubmit_response:
  "history_ok (historyState s) \<Longrightarrow> history_ok (historyState (handleSubmit_response B out s))"
  using handleSubmit_response_frame[of B out s] by (auto simp: history_ok_setGeneratedImage)

lemma history_ok_handle:
  "history_ok (historyState s) \<Longrightarrow> history_ok (historyState (handle B s ev))"
  by (cases ev)
     (simp_all add: history_ok_handleUndo history_ok_handleRedo history_ok_stopDrawing
        history_ok_clearCanvas history_ok_handleImageImport history_ok_handleSubmit_response)

lemma history_ok_foldl:
  "history_ok (historyState s) \<Longrightarrow> history_ok (historyState (foldl (handle B) s evs))"
  by (induction evs arbitrary: s) (simp_all add: history_ok_handle)

lemma history_ok_mounted: "history_ok (historyState (mounted B c k))"
  by (simp add: mounted_def initCanvas_def Let_def history_ok_def)

text \<open>
  Claim C2. The history of the mounted component holds one snapshot at index 0 and
  satisfies the invariant (non-empty stack, \<open>0 \<le> index < length\<close>); a commit, and
  every handler of the component (undo and redo among them), takes a history that
  satisfies the invariant to one that does; so the invariant holds after every
  sequence of events.
\<close>

theorem history_invariant_preserved:
  "historyState (mounted B c k) = \<lparr>stack = [toDataURL B (fillWhite B c)], index = 0\<rparr> \<and>
   history_ok (historyState (mounted B c k)) \<and>
   (history_ok (historyState s) \<longrightarrow>
      history_ok (pushSnapshot d (historyState s)) \<and>
      history_ok (historyState (handle B s ev))) \<and>
   history_ok (historyState (run B (mounted B c k) evs))"
  by (simp add: run_def history_ok_mounted history_ok_handle history_ok_foldl
        history_ok_pushSnapshot)
     (simp add: mounted_def initCanvas_def Let_def)

theorem history_invariant_preserved_witness:
  "history_ok (historyState demo_home) \<and>
   history_ok (pushSnapshot ''data:image/png;base64,c3'' (historyState demo_home)) \<and>
   history_ok (historyState (handle demo_browser demo_home Undo)) \<and>
   history_ok (historyState
     (run demo_browser (mounted demo_browser ''c'' ''key'') [Clear, Undo, Undo, Redo]))"
proof -
  have h: "history_ok (historyState demo_home)"
    by (simp add: demo_home_def history_ok_def)
  from h history_invariant_preserved[of demo_browser "''c''" "''key''" demo_home
      "''data:image/png;base64,c3''" Undo "[Clear, Undo, Undo, Redo]"]
  show ?thesis by simp
qed

text \<open>
  Claim C3. Undo at an index above 0 lowers the index by exactly 1 and, the canvas
  being present and the snapshot at the new index a non-empty URL that loads, leaves
  on the canvas that snapshot drawn onto the cleared canvas; at an index of 0 (or
  below) it changes nothing. Redo below the last position raises the index by exactly
  1 and restores the snapshot at the new index in the same way; at the last position
  it changes nothing.
\<close>

theorem undo_redo_move_index_and_restore:
  "(index (historyState s) \<le> 0 \<longrightarrow> handleUndo B s = s) \<and>
   (0 < index (historyState s) \<longrightarrow>
      index (historyState (handleUndo B s)) = index (historyState s) - 1 \<and>
      (history_ok (historyState s) \<and> canvas s = Some c \<and>
       stack (historyState s) ! nat (index (historyState s) - 1) \<noteq> [] \<and>
       loadImage B (stack (historyState s) ! nat (index (historyState s) - 1)) = Some img \<longrightarrow>
         canvas (handleUndo B s) = Some (drawImage B img [Fin 0, Fin 0] (clearRect B c)))) \<and>
   (int (length (stack (historyState s))) - 1 \<le> index (historyState s) \<longrightarrow>
      handleRedo B s = s) \<and>
   (index (historyState s) < int (length (stack (historyState s))) - 1 \<longrightarrow>
      index (historyState (handleRedo B s)) = index (historyState s) + 1 \<and>
      (history_ok (historyState s) \<and> canvas s = Some c \<and>
       stack (historyState s) ! nat (index (historyState s) + 1) \<noteq> [] \<and>
       loadImage B (stack (historyState s) ! nat (index (historyState s) + 1)) = Some img' \<longrightarrow>
         canvas (handleRedo B s) = Some (drawImage B img' [Fin 0, Fin 0] (clearRect B c))))"
proof -
  let ?h = "historyState s"
  have u0: "index ?h \<le> 0 \<Longrightarrow> handleUndo B s = s"
    by (simp add: handleUndo_def)
  have r0: "int (length (stack ?h)) - 1 \<le> index ?h \<Longrightarrow> handleRedo B s = s"
    by (simp add: handleRedo_def)
  have u1: "0 < index ?h \<Longrightarrow> index (historyState (handleUndo B s)) = index ?h - 1"
    by (simp add: handleUndo_index)
  have r1: "index ?h < int (length (stack ?h)) - 1 \<Longrightarrow>
      index (historyState (handleRedo B s)) = index ?h + 1"
    by (simp add: handleRedo_index)
  have u2: "canvas (handleUndo B s) = Some (drawImage B img [Fin 0, Fin 0] (clearRect B c))"
    if "0 < index ?h" "history_ok ?h" "canvas s = Some c"
       "stack ?h ! nat (index ?h - 1) \<noteq> []"
       "loadImage B (stack ?h ! nat (index ?h - 1)) = Some img"
  proof -
    have "js_nth (stack ?h) (index ?h - 1) = Some (stack ?h ! nat (index ?h - 1))"
      using that(1,2) by (simp add: js_nth_in_range history_ok_def)
    then show ?thesis
      using that by (simp add: handleUndo_def Let_def restoreCanvasState_canvas)
  qed
  have r2: "canvas (handleRedo B s) = Some (drawImage B img' [Fin 0, Fin 0] (clearRect B c))"
    if "index ?h < int (length (stack ?h)) - 1" "history_ok ?h" "canvas s = Some c"
       "stack ?h ! nat (index ?h + 1) \<noteq> []"
       "loadImage B (stack ?h ! nat (index ?h + 1)) = Some img'"
  proof -
    have "js_nth (stack ?h) (index ?h + 1) = Some (stack ?h ! nat (index ?h + 1))"
      using that(1,2) by (simp add: js_nth_in_range history_ok_def)
    then show ?thesis
      using that by (simp add: handleRedo_def Let_def restoreCanvasState_canvas)
  qed
  from u0 u1 u2 r0 r1 r2 show ?thesis by blast
qed

theorem undo_redo_move_index_and_restore_witness:
  "0 < index (historyState demo_home) \<and> history_ok (historyState demo_home) \<and>
   canvas demo_home = Some ''c2'' \<and>
   int (length (stack (historyState demo_home))) - 1 \<le> index (historyState demo_home) \<and>
   index (historyState (handleUndo demo_browser demo_home)) = 1 \<and>
   canvas (handleUndo demo_browser demo_home) = Some ''c1'' \<and>
   handleRedo demo_browser demo_home = demo_home \<and>
   index (historyState demo_first) \<le> 0 \<and>
   index (historyState demo_first) < int (length (stack (historyState demo_first))) - 1 \<and>
   handleUndo demo_browser demo_first = demo_first \<and>
   index (historyState (handleRedo demo_browser demo_first)) = 1 \<and>
   canvas (handleRedo demo_browser demo_first) = Some ''c1''"
proof -
  have a: "index (historyState demo_home) = 2"
    "stack (historyState demo_home) = [''data:image/png;base64,c0'',
       ''data:image/png;base64,c1'', ''data:image/png;base64,c2'']"
    "canvas demo_home = Some ''c2''" "history_ok (historyState demo_home)"
    by (simp_all add: demo_home_def history_ok_def)
  have b: "index (historyState demo_first) = 0"
    "stack (historyState demo_first) = [''data:image/png;base64,c0'',
       ''data:image/png;base64,c1'', ''data:image/png;base64,c2'']"
    "canvas demo_first = Some ''c2''" "history_ok (historyState demo_first)"
    by (simp_all add: demo_first_def demo_home_def history_ok_def)
  have l: "loadImage demo_browser ''data:image/png;base64,c1'' = Some ''c1''"
    "drawImage demo_browser ''c1'' [Fin 0, Fin 0] (clearRect demo_browser ''c2'') = ''c1''"
    by (simp_all add: demo_browser_def)
  from undo_redo_move_index_and_restore
        [where s = demo_home and B = demo_browser and c = "''c2''" and img = "''c1''"]
       undo_redo_move_index_and_restore
        [where s = demo_first and B = demo_browser and c = "''c2''" and img' = "''c1''"]
  show ?thesis
    by (simp add: a b l)
qed

text \<open>
  Every snapshot on the stack comes from \<open>toDataURL\<close>, and the canvas stays present.
\<close>

lemma set_js_slice: "set (js_slice xs a b) \<subseteq> set xs"
  by (auto simp: js_slice_def Let_def dest: in_set_takeD in_set_dropD)

lemma pushSnapshot_snapshots:
  "set (stack h) \<subseteq> range (toDataURL B) \<Longrightarrow>
   set (stack (pushSnapshot (toDataURL B r) h)) \<subseteq> range (toDataURL B)"
  using set_js_slice[of "stack h" 0 "index h + 1"] by (auto simp: pushSnapshot_def Let_def)

lemma saveCanvasState_snapshots:
  "set (stack (historyState s)) \<subseteq> range (toDataURL B) \<Longrightarrow>
   set (stack (historyState (saveCanvasState B s))) \<subseteq> range (toDataURL B)"
  by (cases "canvas s") (simp_all add: saveCanvasState_def pushSnapshot_snapshots)

lemma setGeneratedImage_snapshots:
  "set (stack (historyState s)) \<subseteq> range (toDataURL B) \<Longrightarrow>
   set (stack (historyState (setGeneratedImage B v s))) \<subseteq> range (toDataURL B)"
  by (simp add: setGeneratedImage_def generatedImageEffect_def saveCanvasState_snapshots
        split: option.splits)

lemma handle_snapshots:
  assumes "set (stack (historyState s)) \<subseteq> range (toDataURL B)"
  shows "set (stack (historyState (handle B s ev))) \<subseteq> range (toDataURL B)"
proof (cases ev)
  case PointerUp
  then show ?thesis using assms by (simp add: stopDrawing_def saveCanvasState_snapshots)
next
  case Clear
  then show ?thesis using assms
    by (cases "canvas s")
       (simp_all add: clearCanvas_def Let_def saveCanvasState_snapshots
          setGeneratedImage_snapshots)
next
  case (ImportFile f)
  then show ?thesis using assms
    by (simp add: handleImageImport_def Let_def saveCanvasState_snapshots
          setGeneratedImage_snapshots split: option.splits)
next
  case (Outcome out)
  then show ?thesis using assms handleSubmit_response_frame[of B out s]
    by (auto simp: setGeneratedImage_snapshots[THEN subsetD])
qed (use assms in \<open>simp_all add: handleUndo_stack handleRedo_stack\<close>)

lemma run_snapshots:
  "set (stack (historyState (run B (mounted B c k) evs))) \<subseteq> range (toDataURL B)"
proof -
  have "set (stack (historyState s)) \<subseteq> range (toDataURL B) \<Longrightarrow>
        set (stack (historyState (foldl (handle B) s evs))) \<subseteq> range (toDataURL B)" for s
    by (induction evs arbitrary: s) (simp_all add: handle_snapshots)
  moreover have "set (stack (historyState (mounted B c k))) \<subseteq> range (toDataURL B)"
    by (simp add: mounted_def initCanvas_def Let_def)
  ultimately show ?thesis by (simp add: run_def)
qed

lemma handleRedo_canvas_None [simp]: "canvas (handleRedo B s) = None \<longleftrightarrow> canvas s = None"
  by (simp add: handleRedo_def Let_def)

lemma setGeneratedImage_canvas_None [simp]:
  "canvas (setGeneratedImage B v s) = None \<longleftrightarrow> canvas s = None"
  by (simp add: setGeneratedImage_def generatedImageEffect_def drawImageToCanvas_def
        saveCanvasState_def split: option.splits)

lemma handleSubmit_response_canvas_None [simp]:
  "canvas (handleSubmit_response B out s) = None \<longleftrightarrow> canvas s = None"
  using handleSubmit_response_frame[of B out s]
  by (metis setGeneratedImage_canvas_None)

lemma handleSubmit_request_canvas [simp]:
  "canvas (fst (handleSubmit_request B s)) = canvas s"
  by (simp add: handleSubmit_request_def Let_def split: option.splits)

lemma startDrawing_canvas_None [simp]:
  "canvas (startDrawing B rect e s) = None \<longleftrightarrow> canvas s = None"
  by (simp add: startDrawing_def Let_def split: option.splits)

lemma draw_canvas_None [simp]: "canvas (draw B rect e s) = None \<longleftrightarrow> canvas s = None"
  by (simp add: draw_def Let_def split: option.splits)

lemma stopDrawing_canvas [simp]: "canvas (stopDrawing B s) = canvas s"
  by (simp add: stopDrawing_def saveCanvasState_def split: option.splits)

lemma clearCanvas_canvas_None [simp]: "canvas (clearCanvas B s) = None \<longleftrightarrow> canvas s = None"
  by (simp add: clearCanvas_def Let_def saveCanvasState_def setGeneratedImage_def
        generatedImageEffect_def split: option.splits)

lemma handleImageImport_canvas_None [simp]:
  "canvas (handleImageImport B f s) = None \<longleftrightarrow> canvas s = None"
  by (simp add: handleImageImport_def Let_def saveCanvasState_def setGeneratedImage_def
        generatedImageEffect_def split: option.splits)

lemma handle_canvas_None: "canvas (handle B s ev) = None \<longleftrightarrow> canvas s = None"
  by (cases ev) simp_all

lemma run_canvas_present: "canvas (run B (mounted B c k) evs) \<noteq> None"
proof -
  have f: "canvas (foldl (handle B) s evs) = None \<longleftrightarrow> canvas s = None" for s
    by (induction evs arbitrary: s) (simp_all add: handle_canvas_None)
  have m: "canvas (mounted B c k) \<noteq> None"
    by (simp add: mounted_def initCanvas_def Let_def)
  show ?thesis unfolding run_def using f[of "mounted B c k"] m by simp
qed

text \<open>In a run of the component, with a browser that loads what it encodes, the guards of
  \<open>restoreCanvasState\<close> hold, and undo and redo restore the snapshot.\<close>

lemma run_undo_restores:
  assumes B: "\<And>r. toDataURL B r \<noteq> [] \<and> loadImage B (toDataURL B r) \<noteq> None"
    and s: "s = run B (mounted B c k) evs" and i: "0 < index (historyState s)"
  shows "\<exists>c' img. canvas s = Some c' \<and>
           loadImage B (stack (historyState s) ! nat (index (historyState s) - 1)) = Some img \<and>
           canvas (handleUndo B s) = Some (drawImage B img [Fin 0, Fin 0] (clearRect B c'))"
proof -
  obtain c' where c': "canvas s = Some c'"
    using run_canvas_present[of B c k evs] s by auto
  have ok: "history_ok (historyState s)"
    unfolding s run_def by (rule history_ok_foldl[OF history_ok_mounted])
  let ?u = "stack (historyState s) ! nat (index (historyState s) - 1)"
  have "nat (index (historyState s) - 1) < length (stack (historyState s))"
    using ok i by (auto simp: history_ok_def nat_less_iff)
  then have "?u \<in> set (stack (historyState s))" by (rule nth_mem)
  then obtain r where r: "?u = toDataURL B r"
    using run_snapshots[of B c k evs] s by auto
  then obtain img where img: "loadImage B ?u = Some img" using B[of r] by auto
  have ne: "?u \<noteq> []" using B[of r] r by simp
  have "js_nth (stack (historyState s)) (index (historyState s) - 1) = Some ?u"
    using ok i by (simp add: js_nth_in_range history_ok_def)
  then have "canvas (handleUndo B s) = Some (drawImage B img [Fin 0, Fin 0] (clearRect B c'))"
    using i c' ne img by (simp add: handleUndo_def Let_def restoreCanvasState_canvas)
  then show ?thesis using c' img by blast
qed

lemma run_redo_restores:
  assumes B: "\<And>r. toDataURL B r \<noteq> [] \<and> loadImage B (toDataURL B r) \<noteq> None"
    and s: "s = run B (mounted B c k) evs"
    and i: "index (historyState s) < int (length (stack (historyState s))) - 1"
  shows "\<exists>c' img. canvas s = Some c' \<and>
           loadImage B (stack (historyState s) ! nat (index (historyState s) + 1)) = Some img \<and>
           canvas (handleRedo B s) = Some (drawImage B img [Fin 0, Fin 0] (clearRect B c'))"
proof -
  obtain c' where c': "canvas s = Some c'"
    using run_canvas_present[of B c k evs] s by auto
  have ok: "history_ok (historyState s)"
    unfolding s run_def by (rule history_ok_foldl[OF history_ok_mounted])
  let ?u = "stack (historyState s) ! nat (index (historyState s) + 1)"
  have "nat (index (historyState s) + 1) < length (stack (historyState s))"
    using ok i by (auto simp: history_ok_def nat_less_iff)
  then have "?u \<in> set (stack (historyState s))" by (rule nth_mem)
  then obtain r where r: "?u = toDataURL B r"
    using run_snapshots[of B c k evs] s by auto
  then obtain img where img: "loadImage B ?u = Some img" using B[of r] by auto
  have ne: "?u \<noteq> []" using B[of r] r by simp
  have "js_nth (stack (historyState s)) (index (historyState s) + 1) = Some ?u"
    using ok i by (simp add: js_nth_in_range history_ok_def)
  then have "canvas (handleRedo B s) = Some (drawImage B img [Fin 0, Fin 0] (clearRect B c'))"
    using i c' ne img by (simp add: handleRedo_def Let_def restoreCanvasState_canvas)
  then show ?thesis using c' img by blast
qed

text \<open>
  Claim C10. Undo and redo leave the snapshot stack as it is: the same length and the
  same snapshot at every position. Only a commit drops snapshots.
\<close>

theorem undo_redo_keep_stack:
  "stack (historyState (handleUndo B s)) = stack (historyState s) \<and>
   stack (historyState (handleRedo B s)) = stack (historyState s)"
  by (simp add: handleUndo_stack handleRedo_stack)

section \<open>Rounding\<close>

text \<open>The exponent brackets its argument, rounding to an integer is off by at most
  one half, and so \<open>rd\<close> is off by at most half the spacing of the doubles.\<close>

lemma expo_bounds: "0 < x \<Longrightarrow> 2 powi (expo x) \<le> x \<and> x < 2 powi (expo x + 1)"
proof (induction x rule: expo.induct)
  case (1 x)
  show ?case
  proof (cases "2 \<le> x")
    case True
    then have e: "expo x = expo (x / 2) + 1" using 1(3) by (subst expo.simps) simp
    have "2 powi (expo (x / 2)) \<le> x / 2 \<and> x / 2 < 2 powi (expo (x / 2) + 1)"
      using 1(1) True 1(3) by simp
    then show ?thesis unfolding e by (simp add: power_int_add)
  next
    case False
    show ?thesis
    proof (cases "x < 1")
      case True
      then have e: "expo x = expo (2 * x) - 1" using 1(3) False by (subst expo.simps) simp
      have "2 powi (expo (2 * x)) \<le> 2 * x \<and> 2 * x < 2 powi (expo (2 * x) + 1)"
        using 1(2) True False 1(3) by simp
      then show ?thesis unfolding e by (simp add: power_int_add power_int_diff)
    next
      case c: False
      then have e: "expo x = 0" using 1(3) False by (subst expo.simps) simp
      show ?thesis unfolding e using c False by simp
    qed
  qed
qed

lemma expo_unique:
  assumes "0 < x" "2 powi e \<le> x" "x < 2 powi (e + 1)"
  shows "expo x = e"
proof -
  note b = expo_bounds[OF assms(1)]
  have 1: "expo x < e + 1"
  proof (rule ccontr)
    assume "\<not> expo x < e + 1"
    then have "(2::real) powi (e + 1) \<le> 2 powi (expo x)"
      by (intro power_int_increasing) simp_all
    then show False using b assms(3) by linarith
  qed
  have 2: "e < expo x + 1"
  proof (rule ccontr)
    assume "\<not> e < expo x + 1"
    then have "(2::real) powi (expo x + 1) \<le> 2 powi e"
      by (intro power_int_increasing) simp_all
    then show False using b assms(2) by linarith
  qed
  from 1 2 show ?thesis by simp
qed

lemma round_even_error: "\<bar>of_int (round_even x) - x\<bar> \<le> 1 / 2"
proof -
  define f where "f = \<lfloor>x\<rfloor>"
  have a: "of_int f \<le> x" "x < of_int f + 1" unfolding f_def by linarith+
  have "round_even x = f \<and> x - of_int f \<le> 1 / 2 \<or>
        round_even x = f + 1 \<and> 1 / 2 \<le> x - of_int f"
    unfolding round_even_def Let_def f_def[symmetric] by (simp add: not_less)
  then show ?thesis
  proof
    assume "round_even x = f \<and> x - of_int f \<le> 1 / 2"
    then show ?thesis using a by simp
  next
    assume "round_even x = f + 1 \<and> 1 / 2 \<le> x - of_int f"
    then show ?thesis using a by simp
  qed
qed

lemma round_even_unique:
  assumes "\<bar>x - of_int n\<bar> < 1 / 2"
  shows "round_even x = n"
proof -
  have a: "of_int \<lfloor>x\<rfloor> \<le> x" "x < of_int \<lfloor>x\<rfloor> + 1" by linarith+
  have b: "\<bar>of_int (round_even x) - x\<bar> \<le> 1 / 2" by (rule round_even_error)
  have "(of_int (round_even x) :: real) < of_int n + 1" using assms b by linarith
  then have "(of_int (round_even x) :: real) < of_int (n + 1)" by simp
  then have 1: "round_even x < n + 1" by (simp only: of_int_less_iff)
  have "(of_int n :: real) - 1 < of_int (round_even x)" using assms b by linarith
  then have "(of_int (n - 1) :: real) < of_int (round_even x)" by simp
  then have 2: "n - 1 < round_even x" by (simp only: of_int_less_iff)
  from 1 2 show ?thesis by linarith
qed

lemma quantum_pos: "0 < quantum x"
  by (simp add: quantum_def)

lemma rd_error_quantum: "\<bar>rd x - x\<bar> \<le> quantum x / 2"
proof -
  let ?q = "quantum x"
  have q: "0 < ?q" by (rule quantum_pos)
  have "\<bar>of_int (round_even (x / ?q)) - x / ?q\<bar> \<le> 1 / 2" by (rule round_even_error)
  then have "\<bar>of_int (round_even (x / ?q)) - x / ?q\<bar> * ?q \<le> 1 / 2 * ?q"
    using q by (intro mult_right_mono) simp_all
  moreover have "rd x - x = (of_int (round_even (x / ?q)) - x / ?q) * ?q"
    using q by (simp add: rd_def left_diff_distrib)
  then have "\<bar>rd x - x\<bar> = \<bar>of_int (round_even (x / ?q)) - x / ?q\<bar> * ?q"
    using q by (simp only: abs_mult abs_of_pos)
  ultimately show ?thesis by simp
qed

lemma quantum_le: "x \<noteq> 0 \<Longrightarrow> quantum x \<le> \<bar>x\<bar> * 2 powi (- 52) + 2 powi (- 1074)"
proof (cases "expo \<bar>x\<bar> < - 1022")
  case True
  then have "max (expo \<bar>x\<bar>) (- 1022) = - 1022"
    by simp
  then have "quantum x = 2 powi (- 1074)" by (simp add: quantum_def)
  then show ?thesis by simp
next
  case False
  assume "x \<noteq> 0"
  with False have x: "0 < \<bar>x\<bar>" and m: "max (expo \<bar>x\<bar>) (- 1022) = expo \<bar>x\<bar>" by auto
  have "quantum x = 2 powi (expo \<bar>x\<bar>) * 2 powi (- 52)"
    unfolding quantum_def m by (simp add: power_int_diff power_int_minus_divide)
  also have "\<dots> \<le> \<bar>x\<bar> * 2 powi (- 52)"
    using expo_bounds[OF x] by (intro mult_right_mono) simp_all
  finally show ?thesis by (simp add: add_increasing2)
qed

lemma rd_0 [simp]: "rd 0 = 0"
  by (simp add: rd_def round_even_def)

lemma rd_error: "\<bar>rd x - x\<bar> \<le> \<bar>x\<bar> * 2 powi (- 53) + 2 powi (- 1075)"
proof (cases "x = 0")
  case True
  then show ?thesis by simp
next
  case False
  have "quantum x / 2 \<le> (\<bar>x\<bar> * 2 powi (- 52) + 2 powi (- 1074)) / 2"
    using quantum_le[OF False] by simp
  also have "\<dots> = \<bar>x\<bar> * 2 powi (- 53) + 2 powi (- 1075)"
  proof -
    have "(2::real) powi (- 52) / 2 = 2 powi (- 53)" "(2::real) powi (- 1074) / 2 = 2 powi (- 1075)"
      using power_int_diff[of "2::real" "- 52" 1] power_int_diff[of "2::real" "- 1074" 1] by simp_all
    then show ?thesis by (simp add: add_divide_distrib)
  qed
  finally show ?thesis using rd_error_quantum[of x] by linarith
qed

lemma rd_eval:
  assumes "2 powi e \<le> \<bar>x\<bar>" "\<bar>x\<bar> < 2 powi (e + 1)" "- 1022 \<le> e"
    and "\<bar>x / 2 powi (e - 52) - of_int n\<bar> < 1 / 2"
  shows "rd x = of_int n * 2 powi (e - 52)"
proof -
  have "0 < \<bar>x\<bar>" using assms(1) zero_less_power_int[of "2::real" e] by linarith
  then have "expo \<bar>x\<bar> = e" using assms(1,2) by (rule expo_unique)
  then have "quantum x = 2 powi (e - 52)" using assms(3) by (simp add: quantum_def)
  then show ?thesis using round_even_unique[OF assms(4)] by (simp add: rd_def)
qed

lemma rd_bound: "\<bar>rd x\<bar> \<le> 2 * \<bar>x\<bar> + 1"
proof -
  have e: "(2::real) powi (- 53) \<le> 1" "(2::real) powi (- 1075) \<le> 1"
    using power_int_increasing[of "- 53" 0 "2::real"] power_int_increasing[of "- 1075" 0 "2::real"]
    by simp_all
  have "\<bar>x\<bar> * 2 powi (- 53) \<le> \<bar>x\<bar> * 1" using e(1) by (intro mult_left_mono) simp_all
  then show ?thesis using rd_error[of x] e(2) by linarith
qed





lemma fl_Fin: "\<bar>x\<bar> \<le> 2 ^ 100 \<Longrightarrow> fl x = Fin (rd x)"
proof -
  assume x: "\<bar>x\<bar> \<le> 2 ^ 100"
  have "\<bar>rd x\<bar> \<le> 2 * 2 ^ 100 + 1" using rd_bound[of x] x by linarith
  also have "\<dots> < (2::real) ^ 102" by simp
  also have "\<dots> \<le> 2 ^ 1024" by (intro power_increasing) simp_all
  finally have "\<bar>rd x\<bar> < 2 powi 1024" by simp
  then show ?thesis by (simp add: fl_def Let_def)
qed

lemma rd_values:
  "rd 2 = 2" "rd 960 = 960" "rd 540 = 540" "rd 1 = 1"
  using rd_eval[of 1 2 "2 ^ 52"] rd_eval[of 9 960 "960 * 2 ^ 43"]
        rd_eval[of 9 540 "540 * 2 ^ 43"] rd_eval[of 0 1 "2 ^ 52"]
  by simp_all

section \<open>Pointer coordinates\<close>

lemma fl_0 [simp]: "fl 0 = Fin 0"
  by (simp add: fl_def)

lemma fl_values: "fl 2 = Fin 2" "fl 960 = Fin 960" "fl 540 = Fin 540" "fl 1 = Fin 1"
  by (simp_all add: fl_Fin rd_values)

text \<open>A mouse position with non-zero offsets, and a touch, are scaled by the ratio of
  the internal size to the displayed size, each operation rounded.\<close>

lemma getCoordinates_at_mouse:
  "x \<noteq> 0 \<Longrightarrow> y \<noteq> 0 \<Longrightarrow> w \<noteq> 0 \<Longrightarrow> h \<noteq> 0 \<Longrightarrow>
   getCoordinates (Fin cw) (Fin ch)
     \<lparr>rect_left = l, rect_top = t, rect_width = Fin w, rect_height = Fin h\<rparr>
     (MouseEvent (Fin x) (Fin y))
   = (js_mul (Fin x) (fl (cw / w)), js_mul (Fin y) (fl (ch / h)))"
  by (simp add: getCoordinates_def js_or_def Let_def)

lemma getCoordinates_at_touch:
  "w \<noteq> 0 \<Longrightarrow> h \<noteq> 0 \<Longrightarrow>
   getCoordinates (Fin cw) (Fin ch)
     \<lparr>rect_left = Fin l, rect_top = Fin t, rect_width = Fin w, rect_height = Fin h\<rparr>
     (TouchEvent ((Fin x, Fin y) # ts))
   = (js_mul (fl (x - l)) (fl (cw / w)), js_mul (fl (y - t)) (fl (ch / h)))"
  by (simp add: getCoordinates_def js_or_def js_sub_undef_def Let_def)

text \<open>With a mouse offset of 0 the \<open>||\<close> falls through to the touch expression,
  which is \<open>undefined - rect.left\<close> for a mouse event.\<close>

lemma getCoordinates_mouse_zero_x:
  "fst (getCoordinates cw ch rect (MouseEvent (Fin 0) y)) = NaN"
  by (simp add: getCoordinates_def js_or_def js_sub_undef_def Let_def)

lemma getCoordinates_mouse_zero_y:
  "snd (getCoordinates cw ch rect (MouseEvent x (Fin 0))) = NaN"
  by (simp add: getCoordinates_def js_or_def js_sub_undef_def Let_def)

text \<open>
  Claim C4. On the 960 by 540 canvas displayed at 480 by 270, a mouse event at the
  displayed corner \<open>(0, 0)\<close> yields \<open>(NaN, NaN)\<close> and not the raster corner \<open>(0, 0)\<close>;
  the opposite corner maps to \<open>(960, 540)\<close>, and a touch at the displayed corner
  \<open>(0, 0)\<close> maps to \<open>(0, 0)\<close>.
\<close>

theorem mouse_at_origin_maps_to_NaN:
  "getCoordinates canvas_width canvas_height
     \<lparr>rect_left = Fin 100, rect_top = Fin 50, rect_width = Fin 480, rect_height = Fin 270\<rparr>
     (MouseEvent (Fin 0) (Fin 0)) = (NaN, NaN)
   \<and> getCoordinates canvas_width canvas_height
     \<lparr>rect_left = Fin 100, rect_top = Fin 50, rect_width = Fin 480, rect_height = Fin 270\<rparr>
     (MouseEvent (Fin 480) (Fin 270)) = (Fin 960, Fin 540)
   \<and> getCoordinates canvas_width canvas_height
     \<lparr>rect_left = Fin 100, rect_top = Fin 50, rect_width = Fin 480, rect_height = Fin 270\<rparr>
     (TouchEvent [(Fin 100, Fin 50)]) = (Fin 0, Fin 0)"
  by (simp add: getCoordinates_def js_or_def js_sub_undef_def Let_def
        canvas_width_def canvas_height_def fl_values)

section \<open>Placement of an imported image\<close>

lemma saveCanvasState_canvas [simp]: "canvas (saveCanvasState B s) = canvas s"
  by (simp add: saveCanvasState_def split: option.splits)

lemma setGeneratedImage_None [simp]:
  "setGeneratedImage B None s = s\<lparr>generatedImage := None\<rparr>"
  by (simp add: setGeneratedImage_def generatedImageEffect_def)






section \<open>Submitting\<close>

text \<open>
  Claim C9. With an empty API key \<open>handleSubmit\<close> issues no request: it only opens
  the API key dialog; canvas and history stay as they are, whatever the service
  would have answered.
\<close>

theorem submit_without_apiKey_refused:
  assumes "apiKey s = []"
  shows "handleSubmit_request B s = (s\<lparr>showApiKeyModal := True\<rparr>, None)
       \<and> handleSubmit B service s = s\<lparr>showApiKeyModal := True\<rparr>
       \<and> canvas (handleSubmit B service s) = canvas s
       \<and> historyState (handleSubmit B service s) = historyState s
       \<and> showApiKeyModal (handleSubmit B service s)"
  using assms by (simp add: handleSubmit_request_def handleSubmit_def handleSubmit_run_def)

theorem submit_without_apiKey_refused_witness:
  "apiKey (demo_home\<lparr>apiKey := []\<rparr>) = [] \<and>
   snd (handleSubmit_request demo_browser (demo_home\<lparr>apiKey := []\<rparr>)) = None \<and>
   showApiKeyModal (handleSubmit demo_browser (\<lambda>req. Returns []) (demo_home\<lparr>apiKey := []\<rparr>)) \<and>
   canvas (handleSubmit demo_browser (\<lambda>req. Returns []) (demo_home\<lparr>apiKey := []\<rparr>)) = Some ''c2''"
proof -
  have h: "apiKey (demo_home\<lparr>apiKey := []\<rparr>) = []" by simp
  from submit_without_apiKey_refused[OF h, of demo_browser "\<lambda>req. Returns []"] show ?thesis
    by (simp add: demo_home_def)
qed

text \<open>The search \<open>contains\<close> finds exactly the strings that have the pattern as a
  contiguous part, and \<open>lower\<close> maps the capital letters to the small ones and nothing else.\<close>

lemma starts_with_iff: "starts_with p s \<longleftrightarrow> (\<exists>b. s = p @ b)"
  by (induction p s rule: starts_with.induct) auto

lemma contains_iff: "contains p s \<longleftrightarrow> (\<exists>a b. s = a @ p @ b)"
proof (induction s)
  case Nil
  show ?case by auto
next
  case (Cons c cs)
  show ?case
  proof
    assume "contains p (c # cs)"
    then consider "starts_with p (c # cs)" | "contains p cs" by auto
    then show "\<exists>a b. c # cs = a @ p @ b"
    proof cases
      case 1
      then obtain b where "c # cs = p @ b" unfolding starts_with_iff by blast
      then have "c # cs = [] @ p @ b" by simp
      then show ?thesis by blast
    next
      case 2
      then obtain a b where "cs = a @ p @ b" using Cons.IH by blast
      then have "c # cs = (c # a) @ p @ b" by simp
      then show ?thesis by blast
    qed
  next
    assume "\<exists>a b. c # cs = a @ p @ b"
    then obtain a b where ab: "c # cs = a @ p @ b" by blast
    show "contains p (c # cs)"
    proof (cases a)
      case Nil
      then have "starts_with p (c # cs)" using ab unfolding starts_with_iff by auto
      then show ?thesis by simp
    next
      case (Cons x a')
      then have "cs = a' @ p @ b" using ab by simp
      then have "contains p cs" using Cons.IH by blast
      then show ?thesis by simp
    qed
  qed
qed

lemma lower_letters:
  "map lower ''ABCDEFGHIJKLMNOPQRSTUVWXYZ'' = ''abcdefghijklmnopqrstuvwxyz''"
  by code_simp

lemma lower_patterns:
  "map lower ''quota'' = ''quota''"
  "map lower ''origin is not allowed'' = ''origin is not allowed''"
  "map lower ''API key not valid'' = ''api key not valid''"
  by code_simp+

lemma errorHelp_iff:
  "(PermissionOrQuotaHelp \<in> set (errorHelp msg) \<longleftrightarrow>
      (\<exists>a b. map lower msg = a @ ''quota'' @ b) \<or>
      (\<exists>a b. map lower msg = a @ ''origin is not allowed'' @ b)) \<and>
   (InvalidApiKeyHelp \<in> set (errorHelp msg) \<longleftrightarrow>
      (\<exists>a b. map lower msg = a @ ''api key not valid'' @ b))"
proof -
  have q: "isQuotaError msg \<longleftrightarrow> (\<exists>a b. map lower msg = a @ ''quota'' @ b)"
    unfolding isQuotaError_def test_ci_def contains_iff lower_patterns ..
  have h: "isHostError msg \<longleftrightarrow> (\<exists>a b. map lower msg = a @ ''origin is not allowed'' @ b)"
    unfolding isHostError_def test_ci_def contains_iff lower_patterns ..
  have k: "isApiKeyError msg \<longleftrightarrow> (\<exists>a b. map lower msg = a @ ''api key not valid'' @ b)"
    unfolding isApiKeyError_def test_ci_def contains_iff lower_patterns ..
  show ?thesis unfolding errorHelp_def q h k by auto
qed

lemma capital_codes: "map char_of [65..<91::nat] = ''ABCDEFGHIJKLMNOPQRSTUVWXYZ''"
  by code_simp

lemma lower_other: "c \<notin> set ''ABCDEFGHIJKLMNOPQRSTUVWXYZ'' \<Longrightarrow> lower c = c"
proof (rule ccontr)
  assume n: "c \<notin> set ''ABCDEFGHIJKLMNOPQRSTUVWXYZ''" and "lower c \<noteq> c"
  then have "(65::nat) \<le> of_char c \<and> of_char c \<le> (90::nat)"
    by (auto simp: lower_def split: if_splits)
  then have a: "(65::nat) \<le> of_char c" and b: "(of_char c :: nat) < 91" by linarith+
  have "(of_char c :: nat) \<in> {65..<91}" using a b by (rule iffD2[OF atLeastLessThan_iff, OF conjI])
  then have "(of_char c :: nat) \<in> set [65..<91]" by (simp only: set_upt)
  then have "char_of (of_char c :: nat) \<in> set (map char_of [65..<91::nat])"
    by (simp only: set_map image_eqI)
  then have "c \<in> set ''ABCDEFGHIJKLMNOPQRSTUVWXYZ''"
    by (simp only: capital_codes char_of_char)
  then show False using n by simp
qed

lemma readPart_None_iff: "readPart d p = None \<longleftrightarrow> throwsPart p"
  by (cases p) (auto simp: readPart_def throwsPart_def split: option.splits blob.splits)

lemma readPartsFrom_None_iff: "readPartsFrom d ps = None \<longleftrightarrow> (\<exists>p\<in>set ps. throwsPart p)"
proof (induction ps arbitrary: d)
  case Nil
  show ?case by simp
next
  case (Cons p ps)
  show ?case
  proof (cases "readPart d p")
    case None
    then show ?thesis using readPart_None_iff[of d p] by simp
  next
    case (Some d')
    then have "\<not> throwsPart p" using readPart_None_iff[of d p] by simp
    then show ?thesis using Some Cons.IH[of d'] by simp
  qed
qed

lemma readParts_None_iff: "readParts ps = None \<longleftrightarrow> (\<exists>p\<in>set ps. throwsPart p)"
  by (simp add: readParts_def readPartsFrom_None_iff)

lemma readPart_Some:
  "\<not> throwsPart p \<Longrightarrow>
   readPart d p =
     Some (d\<lparr>message := (if truthy (part_text p) then the (part_text p) else message d),
             imageData := (if isImagePart p then partImage p else imageData d)\<rparr>)"
  by (cases p)
     (auto simp: readPart_def throwsPart_def isImagePart_def partImage_def
        split: option.splits blob.splits)

lemma readPartsFrom_Some:
  "\<forall>p\<in>set ps. \<not> throwsPart p \<Longrightarrow>
   readPartsFrom d ps =
     Some (d\<lparr>message := (if textParts ps = [] then message d
                          else the (part_text (last (textParts ps)))),
             imageData := (if imageParts ps = [] then imageData d
                           else partImage (last (imageParts ps)))\<rparr>)"
proof (induction ps arbitrary: d)
  case Nil
  show ?case by (simp add: textParts_def imageParts_def)
next
  case (Cons p ps)
  then have p: "\<not> throwsPart p" and ps: "\<forall>p\<in>set ps. \<not> throwsPart p" by simp_all
  show ?case
    unfolding readPartsFrom.simps readPart_Some[OF p] option.case Cons.IH[OF ps]
    by (simp add: textParts_def imageParts_def)
qed

lemma readParts_Some:
  "\<forall>p\<in>set ps. \<not> throwsPart p \<Longrightarrow>
   readParts ps =
     Some \<lparr>success = True,
           message = (if textParts ps = [] then [] else the (part_text (last (textParts ps)))),
           imageData = (if imageParts ps = [] then None else partImage (last (imageParts ps)))\<rparr>"
  by (simp add: readParts_def readPartsFrom_Some)

lemma imageParts_idem [simp]: "imageParts (imageParts ps) = imageParts ps"
  by (simp add: imageParts_def)

lemma imageParts_no_text [simp]: "textParts (imageParts ps) = []"
  by (auto simp: imageParts_def textParts_def isImagePart_def partImage_def filter_empty_conv)

lemma imageParts_throws: "(\<forall>p\<in>set ps. \<not> throwsPart p) \<Longrightarrow> \<forall>p\<in>set (imageParts ps). \<not> throwsPart p"
  by (simp add: imageParts_def)

lemma errorHelp_default: "errorHelp ''An unexpected error occurred.'' = []"
  by code_simp

lemma handleSubmit_request_loading:
  "snd (handleSubmit_request B s) = Some req \<Longrightarrow>
   handleSubmit_request B s = (s\<lparr>isLoading := True\<rparr>, Some req)"
  by (auto simp: handleSubmit_request_def Let_def split: if_splits option.splits)

lemma readParts_no_image:
  assumes "\<forall>p\<in>set qs. \<not> throwsPart p"
    and "imageParts qs = [] \<or> partImage (last (imageParts qs)) = Some []"
  shows "\<exists>d. readParts qs = Some d \<and> \<not> truthy (imageData d)"
  using assms readParts_Some[OF assms(1)] by auto

text \<open>
  Claim C8. A thrown value other than \<open>null\<close> and \<open>undefined\<close> is caught: its message
  (a default text when it has none) is stored, the error dialog is opened, the busy
  flag dropped, and the handler ends quietly; an image part without data throws
  inside the loop and is caught the same way. Whatever is thrown, canvas and history
  are unchanged. \<open>ErrorDisplay\<close> shows the permission-or-quota help exactly when the
  stored message contains, in any letter case, \<open>quota\<close> or \<open>origin is not allowed\<close>,
  and the invalid-key help exactly when it contains \<open>API key not valid\<close>. A response
  that can be read and has no usable image sets no error state: it ends with the
  alert, canvas and history unchanged.
\<close>

theorem submit_failure_surfaced:
  "handleSubmit_settle B (Throws (Thrown m)) s
     = (s\<lparr>errorMessage := (if truthy m then the m else ''An unexpected error occurred.''),
          showErrorModal := True, isLoading := False\<rparr>, Quiet)
   \<and> canvas (handleSubmit_response B (Throws e) s) = canvas s
   \<and> historyState (handleSubmit_response B (Throws e) s) = historyState s
   \<and> ((\<exists>p\<in>set ps. throwsPart p) \<longrightarrow>
        handleSubmit_settle B (Returns ps) s
          = (s\<lparr>errorMessage := (if typeErrorMessage B \<noteq> [] then typeErrorMessage B
                                 else ''An unexpected error occurred.''),
               showErrorModal := True, isLoading := False\<rparr>, Quiet))
   \<and> ((\<forall>p\<in>set qs. \<not> throwsPart p) \<and>
        (imageParts qs = [] \<or> partImage (last (imageParts qs)) = Some []) \<longrightarrow>
        handleSubmit_settle B (Returns qs) s
          = (s\<lparr>isLoading := False\<rparr>, Alert ''Failed to generate image. Please try again.''))
   \<and> (PermissionOrQuotaHelp
         \<in> set (errorHelp (errorMessage (handleSubmit_response B (Throws (Thrown m)) s)))
        \<longleftrightarrow> (\<exists>msg a b. m = Some msg \<and>
               (map lower msg = a @ ''quota'' @ b \<or>
                map lower msg = a @ ''origin is not allowed'' @ b)))
   \<and> (InvalidApiKeyHelp
         \<in> set (errorHelp (errorMessage (handleSubmit_response B (Throws (Thrown m)) s)))
        \<longleftrightarrow> (\<exists>msg a b. m = Some msg \<and> map lower msg = a @ ''api key not valid'' @ b))
   \<and> (snd (handleSubmit_request B s) = Some req \<and> service req = Throws (Thrown m) \<longrightarrow>
        handleSubmit_run B service s
          = (s\<lparr>errorMessage := (if truthy m then the m else ''An unexpected error occurred.''),
               showErrorModal := True, isLoading := False\<rparr>, Quiet))"
proof -
  have r: "handleSubmit_settle B (Throws (Thrown m)) s
     = (s\<lparr>errorMessage := (if truthy m then the m else ''An unexpected error occurred.''),
          showErrorModal := True, isLoading := False\<rparr>, Quiet)"
    for s :: "('a, 'b) home" and m
    by (simp add: handleSubmit_settle_def catchError_def)
  have f: "canvas (handleSubmit_response B (Throws e) s) = canvas s
     \<and> historyState (handleSubmit_response B (Throws e) s) = historyState s"
    by (cases e) (simp_all add: handleSubmit_response_def handleSubmit_settle_def catchError_def)
  have t: "handleSubmit_settle B (Returns ps) s
          = (s\<lparr>errorMessage := (if typeErrorMessage B \<noteq> [] then typeErrorMessage B
                                 else ''An unexpected error occurred.''),
               showErrorModal := True, isLoading := False\<rparr>, Quiet)"
    if "\<exists>p\<in>set ps. throwsPart p"
  proof -
    have "readParts ps = None" using that by (simp add: readParts_None_iff)
    then show ?thesis by (simp add: handleSubmit_settle_def catchError_def)
  qed
  have n: "handleSubmit_settle B (Returns qs) s
          = (s\<lparr>isLoading := False\<rparr>, Alert ''Failed to generate image. Please try again.'')"
    if a: "\<forall>p\<in>set qs. \<not> throwsPart p"
      and b: "imageParts qs = [] \<or> partImage (last (imageParts qs)) = Some []"
  proof -
    obtain d where "readParts qs = Some d" "\<not> truthy (imageData d)"
      using readParts_no_image[OF a b] by blast
    then show ?thesis by (simp add: handleSubmit_settle_def)
  qed
  have em: "errorMessage (handleSubmit_response B (Throws (Thrown m)) s)
      = (if truthy m then the m else ''An unexpected error occurred.'')"
    by (simp add: handleSubmit_response_def r)
  have q: "PermissionOrQuotaHelp
         \<in> set (errorHelp (errorMessage (handleSubmit_response B (Throws (Thrown m)) s)))
        \<longleftrightarrow> (\<exists>msg a b. m = Some msg \<and>
               (map lower msg = a @ ''quota'' @ b \<or>
                map lower msg = a @ ''origin is not allowed'' @ b))"
  proof (cases "truthy m")
    case True
    then obtain msg where m: "m = Some msg" by (cases m) auto
    show ?thesis unfolding em using True m errorHelp_iff[of msg] by auto
  next
    case False
    then have "m = None \<or> m = Some []" by (cases m) auto
    then show ?thesis unfolding em using False by (auto simp: errorHelp_default)
  qed
  have k: "InvalidApiKeyHelp
         \<in> set (errorHelp (errorMessage (handleSubmit_response B (Throws (Thrown m)) s)))
        \<longleftrightarrow> (\<exists>msg a b. m = Some msg \<and> map lower msg = a @ ''api key not valid'' @ b)"
  proof (cases "truthy m")
    case True
    then obtain msg where m: "m = Some msg" by (cases m) auto
    show ?thesis unfolding em using True m errorHelp_iff[of msg] by auto
  next
    case False
    then have "m = None \<or> m = Some []" by (cases m) auto
    then show ?thesis unfolding em using False by (auto simp: errorHelp_default)
  qed
  have w: "handleSubmit_run B service s
          = (s\<lparr>errorMessage := (if truthy m then the m else ''An unexpected error occurred.''),
               showErrorModal := True, isLoading := False\<rparr>, Quiet)"
    if "snd (handleSubmit_request B s) = Some req" "service req = Throws (Thrown m)"
    using handleSubmit_request_loading[OF that(1)] that(2)
    by (simp add: handleSubmit_run_def r)
  from r f t n q k w show ?thesis by blast
qed

theorem submit_failure_surfaced_witness:
  "throwsPart (last [Part (Some ''Here it is.'') None, Part None (Some (Blob None))]) \<and>
   filter throwsPart [Part (Some ''I cannot draw that.'') None] = [] \<and>
   imageParts [Part (Some ''I cannot draw that.'') None] = [] \<and>
   snd (handleSubmit_request demo_browser demo_home)
     = Some (the (snd (handleSubmit_request demo_browser demo_home))) \<and>
   handleSubmit_run demo_browser
       (\<lambda>req. Throws (Thrown (Some ''RESOURCE_EXHAUSTED: Quota exceeded''))) demo_home
     = (demo_home\<lparr>errorMessage := ''RESOURCE_EXHAUSTED: Quota exceeded'',
                   showErrorModal := True\<rparr>, Quiet) \<and>
   PermissionOrQuotaHelp
     \<in> set (errorHelp (errorMessage (handleSubmit_response demo_browser
              (Throws (Thrown (Some ''RESOURCE_EXHAUSTED: Quota exceeded''))) demo_home))) \<and>
   InvalidApiKeyHelp
     \<notin> set (errorHelp (errorMessage (handleSubmit_response demo_browser
              (Throws (Thrown (Some ''RESOURCE_EXHAUSTED: Quota exceeded''))) demo_home))) \<and>
   handleSubmit_settle demo_browser
       (Returns [Part (Some ''Here it is.'') None, Part None (Some (Blob None))]) demo_home
     = (demo_home\<lparr>errorMessage := typeErrorMessage demo_browser, showErrorModal := True\<rparr>,
        Quiet) \<and>
   handleSubmit_settle demo_browser (Returns [Part (Some ''I cannot draw that.'') None]) demo_home
     = (demo_home, Alert ''Failed to generate image. Please try again.'')"
proof -
  define msg where "msg = ''RESOURCE_EXHAUSTED: Quota exceeded''"
  define ps where "ps = [Part (Some ''Here it is.'') None, Part None (Some (Blob None))]"
  define qs where "qs = [Part (Some ''I cannot draw that.'') None]"
  have h1: "\<exists>p\<in>set ps. throwsPart p" by (simp add: ps_def throwsPart_def)
  have h2: "(\<forall>p\<in>set qs. \<not> throwsPart p) \<and>
      (imageParts qs = [] \<or> partImage (last (imageParts qs)) = Some [])"
    by (simp add: qs_def throwsPart_def imageParts_def isImagePart_def partImage_def)
  have h2': "imageParts qs = []"
    by (simp add: qs_def imageParts_def isImagePart_def partImage_def)
  have h3: "snd (handleSubmit_request demo_browser demo_home)
     = Some (the (snd (handleSubmit_request demo_browser demo_home)))"
    by (simp add: handleSubmit_request_def demo_home_def Let_def)
  have lo: "map lower msg = ''resource_exhausted: '' @ ''quota'' @ '' exceeded''"
    unfolding msg_def by code_simp
  have nk: "\<not> isApiKeyError msg" unfolding msg_def by code_simp
  have nk': "\<not> (\<exists>a b. map lower msg = a @ ''api key not valid'' @ b)"
    using nk unfolding isApiKeyError_def test_ci_def contains_iff lower_patterns .
  have tm: "truthy (Some msg)" "typeErrorMessage demo_browser \<noteq> []"
    by (simp_all add: msg_def demo_browser_def)
  have l: "isLoading demo_home = False" by (simp add: demo_home_def)
  have e1: "demo_home\<lparr>errorMessage := msg, showErrorModal := True, isLoading := False\<rparr>
      = demo_home\<lparr>errorMessage := msg, showErrorModal := True\<rparr>"
    by (simp add: demo_home_def)
  have e2: "demo_home\<lparr>errorMessage := typeErrorMessage demo_browser, showErrorModal := True,
                isLoading := False\<rparr>
      = demo_home\<lparr>errorMessage := typeErrorMessage demo_browser, showErrorModal := True\<rparr>"
    by (simp add: demo_home_def)
  have e3: "demo_home\<lparr>isLoading := False\<rparr> = demo_home" by (simp add: demo_home_def)
  note th = submit_failure_surfaced[of demo_browser "Some msg" demo_home Nullish ps qs
      "the (snd (handleSubmit_request demo_browser demo_home))"
      "\<lambda>req. Throws (Thrown (Some msg))"]
  have c8: "handleSubmit_run demo_browser (\<lambda>req. Throws (Thrown (Some msg))) demo_home
       = (demo_home\<lparr>errorMessage := msg, showErrorModal := True\<rparr>, Quiet)"
    using th h3 tm e1 by simp
  have ex: "\<exists>m a b. Some msg = Some m \<and>
       (map lower m = a @ ''quota'' @ b \<or> map lower m = a @ ''origin is not allowed'' @ b)"
    using lo by blast
  have c6: "PermissionOrQuotaHelp
       \<in> set (errorHelp (errorMessage (handleSubmit_response demo_browser
                (Throws (Thrown (Some msg))) demo_home)))"
    using th ex by blast
  have nex: "\<not> (\<exists>m a b. Some msg = Some m \<and> map lower m = a @ ''api key not valid'' @ b)"
    using nk' by simp
  have c7: "InvalidApiKeyHelp
       \<notin> set (errorHelp (errorMessage (handleSubmit_response demo_browser
                (Throws (Thrown (Some msg))) demo_home)))"
    using th nex by blast
  have c4: "handleSubmit_settle demo_browser (Returns ps) demo_home
       = (demo_home\<lparr>errorMessage := typeErrorMessage demo_browser, showErrorModal := True\<rparr>,
          Quiet)"
    using th h1 tm e2 by simp
  have c5: "handleSubmit_settle demo_browser (Returns qs) demo_home
       = (demo_home, Alert ''Failed to generate image. Please try again.'')"
    using th h2 e3 by simp
  note c8 c6 c7 c4 c5
  moreover have "throwsPart (last ps)" by (simp add: ps_def throwsPart_def)
  moreover have "filter throwsPart qs = []" by (simp add: qs_def throwsPart_def)
  ultimately show ?thesis using h2' h3 unfolding msg_def ps_def qs_def by blast
qed

text \<open>
  Claim C8, the uncorrected reading. A response with a text part and no image part
  leaves the whole state as it was before the submission, error message empty and
  error dialog closed, and ends with the alert; and when the call rejects with
  \<open>undefined\<close>, the \<open>catch\<close> block throws, no error state is set and the promise of
  the handler rejects.
\<close>

theorem no_image_response_sets_no_error_state:
  "handleSubmit_run demo_browser (\<lambda>req. Returns [Part (Some ''I cannot draw that.'') None])
       demo_home
     = (demo_home, Alert ''Failed to generate image. Please try again.'') \<and>
   \<not> showErrorModal demo_home \<and> errorMessage demo_home = [] \<and>
   handleSubmit_run demo_browser (\<lambda>req. Throws Nullish) demo_home = (demo_home, Rejects)"
  by (simp add: handleSubmit_run_def handleSubmit_request_def handleSubmit_settle_def
        catchError_def readParts_def readPart_def demo_home_def Let_def)

text \<open>The payload of a PNG data URL is what \<open>split(',')[1]\<close> returns.\<close>

lemma white_png_no_comma: "CHR '','' \<notin> set white_png"
  unfolding white_png_def by simp

lemma white_png_nonempty: "white_png \<noteq> []"
  unfolding white_png_def by simp

lemma split_comma_nonempty [simp]: "split_comma s \<noteq> []"
  by (induction s) (auto split: list.splits)

lemma split_comma_no_comma: "CHR '','' \<notin> set p \<Longrightarrow> split_comma p = [p]"
  by (induction p) (auto split: list.splits)

lemma split_comma_append:
  "CHR '','' \<notin> set a \<Longrightarrow> split_comma (a @ CHR '','' # b) = a # split_comma b"
  by (induction a) (auto split: list.splits)

lemma drawingDataOf_png:
  "CHR '','' \<notin> set p \<Longrightarrow> drawingDataOf (''data:image/png;base64,'' @ p) = Some p"
proof -
  assume p: "CHR '','' \<notin> set p"
  have "split_comma (''data:image/png;base64'' @ CHR '','' # p) = ''data:image/png;base64'' # split_comma p"
    by (rule split_comma_append) simp
  then show ?thesis using p by (simp add: drawingDataOf_def js_nth_def split_comma_no_comma)
qed

lemma handleSubmit_request_issued:
  "apiKey s \<noteq> [] \<Longrightarrow> canvas s = Some c \<Longrightarrow>
   handleSubmit_request B s =
     (s\<lparr>isLoading := True\<rparr>,
      Some \<lparr>model = selectedModel s,
            contents = buildContents (prompt s)
                         (drawingDataOf (toDataURL B (compositeOnWhite B c))),
            responseModalities = [''TEXT'', ''IMAGE'']\<rparr>)"
  by (simp add: handleSubmit_request_def Let_def)

text \<open>
  Claim C5, as the code has it. With a credential and a canvas, the request carries
  \<open>buildContents\<close> of the prompt and the payload of the PNG data URL of the canvas
  over white. Whenever that URL is a PNG data URL with a non-empty payload, as it is
  for every canvas with pixels, the untouched white one included, the request is the
  image part followed by the prompt with the style hint; it is the prompt alone only
  when the payload is empty or missing.
\<close>

theorem submit_request_contents:
  assumes "apiKey s \<noteq> []" and "canvas s = Some c"
  shows "(\<exists>req. snd (handleSubmit_request B s) = Some req \<and> model req = selectedModel s \<and>
           contents req = buildContents (prompt s)
                            (drawingDataOf (toDataURL B (compositeOnWhite B c))))
       \<and> (toDataURL B (compositeOnWhite B c) = ''data:image/png;base64,'' @ p \<and>
          p \<noteq> [] \<and> CHR '','' \<notin> set p \<longrightarrow>
            contents (the (snd (handleSubmit_request B s)))
              = [\<lparr>role = ''USER'', parts = [InlineData p ''image/png'']\<rparr>,
                 \<lparr>role = ''USER'',
                  parts = [TextPart (prompt s @ ''. Keep the same minimal line drawing style.'')]\<rparr>])
       \<and> (truthy (drawingDataOf (toDataURL B (compositeOnWhite B c))) \<longrightarrow>
            contents (the (snd (handleSubmit_request B s)))
              = [\<lparr>role = ''USER'',
                  parts = [InlineData
                             (the (drawingDataOf (toDataURL B (compositeOnWhite B c))))
                             ''image/png'']\<rparr>,
                 \<lparr>role = ''USER'',
                  parts = [TextPart (prompt s @ ''. Keep the same minimal line drawing style.'')]\<rparr>])
       \<and> (\<not> truthy (drawingDataOf (toDataURL B (compositeOnWhite B c))) \<longrightarrow>
            contents (the (snd (handleSubmit_request B s)))
              = [\<lparr>role = ''USER'', parts = [TextPart (prompt s)]\<rparr>])"
proof -
  let ?d = "drawingDataOf (toDataURL B (compositeOnWhite B c))"
  note req = handleSubmit_request_issued[OF assms, of B]
  have c: "contents (the (snd (handleSubmit_request B s))) = buildContents (prompt s) ?d"
    by (simp add: req)
  have img: "contents (the (snd (handleSubmit_request B s)))
              = [\<lparr>role = ''USER'', parts = [InlineData p ''image/png'']\<rparr>,
                 \<lparr>role = ''USER'',
                  parts = [TextPart (prompt s @ ''. Keep the same minimal line drawing style.'')]\<rparr>]"
    if u: "toDataURL B (compositeOnWhite B c) = ''data:image/png;base64,'' @ p"
      and p: "p \<noteq> []" "CHR '','' \<notin> set p"
  proof -
    have "?d = Some p" by (simp only: u drawingDataOf_png[OF p(2)])
    then show ?thesis using p(1) by (simp add: c buildContents_def)
  qed
  have ptxt: "contents (the (snd (handleSubmit_request B s)))
              = [\<lparr>role = ''USER'', parts = [TextPart (prompt s)]\<rparr>]"
    if "\<not> truthy ?d"
    using that by (simp add: c buildContents_def)
  have gen: "contents (the (snd (handleSubmit_request B s)))
              = [\<lparr>role = ''USER'', parts = [InlineData (the ?d) ''image/png'']\<rparr>,
                 \<lparr>role = ''USER'',
                  parts = [TextPart (prompt s @ ''. Keep the same minimal line drawing style.'')]\<rparr>]"
    if "truthy ?d"
    using that by (simp add: c buildContents_def)
  have ex: "\<exists>req. snd (handleSubmit_request B s) = Some req \<and> model req = selectedModel s \<and>
           contents req = buildContents (prompt s) ?d"
    by (simp add: req)
  from ex img gen ptxt show ?thesis by blast
qed

lemma demo_untouched_facts:
  "apiKey demo_untouched = ''key''" "canvas demo_untouched = Some white_png"
  "prompt demo_untouched = ''draw a red circle''"
  "historyState demo_untouched = \<lparr>stack = [''data:image/png;base64,'' @ white_png], index = 0\<rparr>"
  "toDataURL demo_browser (compositeOnWhite demo_browser white_png) = ''data:image/png;base64,'' @ white_png"
  by (simp_all add: demo_untouched_def mounted_def initCanvas_def Let_def demo_browser_def)

theorem submit_request_contents_witness:
  "apiKey demo_untouched \<noteq> [] \<and> canvas demo_untouched = Some white_png \<and>
   toDataURL demo_browser (compositeOnWhite demo_browser white_png)
     = ''data:image/png;base64,'' @ white_png \<and>
   white_png \<noteq> [] \<and> CHR '','' \<notin> set white_png \<and>
   contents (the (snd (handleSubmit_request demo_browser demo_untouched)))
     = [\<lparr>role = ''USER'', parts = [InlineData white_png ''image/png'']\<rparr>,
        \<lparr>role = ''USER'',
         parts = [TextPart ''draw a red circle. Keep the same minimal line drawing style.'']\<rparr>] \<and>
   \<not> truthy (drawingDataOf (toDataURL demo_empty_browser (compositeOnWhite demo_empty_browser white_png))) \<and>
   contents (the (snd (handleSubmit_request demo_empty_browser demo_untouched)))
     = [\<lparr>role = ''USER'', parts = [TextPart ''draw a red circle'']\<rparr>]"
proof -
  have k: "apiKey demo_untouched \<noteq> []" by (simp add: demo_untouched_facts)
  note c = demo_untouched_facts(2)
  have e: "\<not> truthy (drawingDataOf (toDataURL demo_empty_browser (compositeOnWhite demo_empty_browser white_png)))"
    by (simp add: demo_empty_browser_def drawingDataOf_def js_nth_def)
  from submit_request_contents[OF k c, of demo_browser white_png]
       submit_request_contents[OF k c, of demo_empty_browser white_png]
       k c e demo_untouched_facts(5) white_png_nonempty white_png_no_comma
  show ?thesis by (simp add: demo_untouched_facts(3))
qed

text \<open>
  The claim as stated fails: for the untouched white canvas and the prompt
  \<open>draw a red circle\<close> the request has the image part first and is not the prompt
  alone.
\<close>

theorem untouched_canvas_request_has_image:
  "canvas demo_untouched = Some white_png \<and>
   stack (historyState demo_untouched) = [''data:image/png;base64,'' @ white_png] \<and>
   contents (the (snd (handleSubmit_request demo_browser demo_untouched)))
     = [\<lparr>role = ''USER'', parts = [InlineData white_png ''image/png'']\<rparr>,
        \<lparr>role = ''USER'',
         parts = [TextPart ''draw a red circle. Keep the same minimal line drawing style.'']\<rparr>] \<and>
   contents (the (snd (handleSubmit_request demo_browser demo_untouched)))
     \<noteq> [\<lparr>role = ''USER'', parts = [TextPart ''draw a red circle'']\<rparr>]"
proof -
  have k: "apiKey demo_untouched \<noteq> []" by (simp add: demo_untouched_facts)
  have d: "drawingDataOf (toDataURL demo_browser (compositeOnWhite demo_browser white_png))
      = Some white_png"
    by (simp only: demo_untouched_facts(5) drawingDataOf_png[OF white_png_no_comma])
  have "contents (the (snd (handleSubmit_request demo_browser demo_untouched)))
     = [\<lparr>role = ''USER'', parts = [InlineData white_png ''image/png'']\<rparr>,
        \<lparr>role = ''USER'',
         parts = [TextPart ''draw a red circle. Keep the same minimal line drawing style.'']\<rparr>]"
    using white_png_nonempty
    by (simp add: handleSubmit_request_issued[OF k demo_untouched_facts(2)] d
          demo_untouched_facts(3) buildContents_def)
  then show ?thesis by (simp add: demo_untouched_facts(2,4))
qed

section \<open>Applying a generation result\<close>

lemma generatedImageEffect_loaded:
  "generatedImage s = Some url \<Longrightarrow> url \<noteq> [] \<Longrightarrow> canvas s = Some c \<Longrightarrow>
   loadImage B url = Some img \<Longrightarrow>
   generatedImageEffect B s
     = s\<lparr>backgroundImage := Some img,
         canvas := Some (drawImage B img [Fin 0, Fin 0, canvas_width, canvas_height] (fillWhite B c)),
         historyState :=
           pushSnapshot
             (toDataURL B (drawImage B img [Fin 0, Fin 0, canvas_width, canvas_height] (fillWhite B c)))
             (historyState s)\<rparr>"
  by (simp add: generatedImageEffect_def drawImageToCanvas_def saveCanvasState_def)

lemma handleSubmit_response_image:
  assumes i: "readParts ps = Some g" "success g" "imageData g = Some d" and dne: "d \<noteq> []"
    and u: "url = ''data:image/png;base64,'' @ d"
    and new: "generatedImage s \<noteq> Some url"
    and cv: "canvas s = Some c"
    and ld: "loadImage B url = Some img"
    and c': "c' = drawImage B img [Fin 0, Fin 0, canvas_width, canvas_height] (fillWhite B c)"
  shows "handleSubmit_settle B (Returns ps) s
     = (s\<lparr>generatedImage := Some url, backgroundImage := Some img, canvas := Some c',
          historyState := pushSnapshot (toDataURL B c') (historyState s),
          isLoading := False\<rparr>, Quiet)"
proof -
  have une: "url \<noteq> []" by (simp add: u)
  have "setGeneratedImage B (Some url) s
      = generatedImageEffect B (s\<lparr>generatedImage := Some url\<rparr>)"
    using new by (simp add: setGeneratedImage_def)
  also have "\<dots> = s\<lparr>generatedImage := Some url, backgroundImage := Some img, canvas := Some c',
         historyState := pushSnapshot (toDataURL B c') (historyState s)\<rparr>"
    using generatedImageEffect_loaded[of "s\<lparr>generatedImage := Some url\<rparr>" url c B img] une cv ld
    by (simp add: c')
  finally have g: "setGeneratedImage B (Some url) s
      = s\<lparr>generatedImage := Some url, backgroundImage := Some img, canvas := Some c',
         historyState := pushSnapshot (toDataURL B c') (historyState s)\<rparr>" .
  have "handleSubmit_settle B (Returns ps) s
      = ((setGeneratedImage B (Some url) s)\<lparr>isLoading := False\<rparr>, Quiet)"
    using i dne by (simp add: handleSubmit_settle_def u)
  then show ?thesis by (simp add: g)
qed

text \<open>
  Claim C6, as the code has it. For a response all of whose parts can be read and
  which has at least one image part, the data \<open>d\<close> of the last image part is used: if
  it is non-empty, differs from the image already shown, the canvas is present and
  the image loads, the image becomes the background image, is drawn over white onto
  the whole canvas, and exactly one snapshot of the result is committed by the
  truncate-then-append rule, which lengthens the history by 1 when the index was at
  the last snapshot. Text parts do not change the outcome: the response stripped to
  its image parts gives the same state. The text of the last text part is kept in
  the \<open>message\<close> of the response record.
\<close>

theorem apply_result_last_image:
  assumes nt: "\<forall>p\<in>set ps. \<not> throwsPart p"
    and ip: "imageParts ps \<noteq> []"
    and d: "partImage (last (imageParts ps)) = Some d" and dne: "d \<noteq> []"
    and new: "generatedImage s \<noteq> Some (''data:image/png;base64,'' @ d)"
    and cv: "canvas s = Some c"
    and ld: "loadImage B (''data:image/png;base64,'' @ d) = Some img"
  shows "handleSubmit_response B (Returns ps) s
     = s\<lparr>generatedImage := Some (''data:image/png;base64,'' @ d),
         backgroundImage := Some img,
         canvas := Some (drawImage B img [Fin 0, Fin 0, canvas_width, canvas_height] (fillWhite B c)),
         historyState :=
           pushSnapshot
             (toDataURL B (drawImage B img [Fin 0, Fin 0, canvas_width, canvas_height] (fillWhite B c)))
             (historyState s),
         isLoading := False\<rparr>
   \<and> (0 \<le> index (historyState s) \<and>
      index (historyState s) = int (length (stack (historyState s))) - 1 \<longrightarrow>
        length (stack (historyState (handleSubmit_response B (Returns ps) s)))
          = length (stack (historyState s)) + 1)
   \<and> handleSubmit_response B (Returns (imageParts ps)) s = handleSubmit_response B (Returns ps) s
   \<and> readParts ps
       = Some \<lparr>success = True,
               message = (if textParts ps = [] then [] else the (part_text (last (textParts ps)))),
               imageData = Some d\<rparr>
   \<and> snd (handleSubmit_settle B (Returns ps) s) = Quiet"
proof -
  define url where "url = ''data:image/png;base64,'' @ d"
  define c' where "c' = drawImage B img [Fin 0, Fin 0, canvas_width, canvas_height] (fillWhite B c)"
  have rp: "readParts ps
       = Some \<lparr>success = True,
               message = (if textParts ps = [] then [] else the (part_text (last (textParts ps)))),
               imageData = Some d\<rparr>"
    using ip d by (simp add: readParts_Some[OF nt])
  have rp': "readParts (imageParts ps)
       = Some \<lparr>success = True, message = [], imageData = Some d\<rparr>"
    using ip d by (simp add: readParts_Some[OF imageParts_throws[OF nt]])
  have new': "generatedImage s \<noteq> Some url" unfolding url_def by (rule new)
  have ld': "loadImage B url = Some img" unfolding url_def by (rule ld)
  have a: "handleSubmit_settle B (Returns ps) s
     = (s\<lparr>generatedImage := Some url, backgroundImage := Some img, canvas := Some c',
          historyState := pushSnapshot (toDataURL B c') (historyState s),
          isLoading := False\<rparr>, Quiet)"
    by (rule handleSubmit_response_image[OF rp _ _ dne url_def new' cv ld' c'_def]) simp_all
  have b: "handleSubmit_settle B (Returns (imageParts ps)) s
     = (s\<lparr>generatedImage := Some url, backgroundImage := Some img, canvas := Some c',
          historyState := pushSnapshot (toDataURL B c') (historyState s),
          isLoading := False\<rparr>, Quiet)"
    by (rule handleSubmit_response_image[OF rp' _ _ dne url_def new' cv ld' c'_def]) simp_all
  have a': "handleSubmit_response B (Returns ps) s
     = s\<lparr>generatedImage := Some url, backgroundImage := Some img, canvas := Some c',
         historyState := pushSnapshot (toDataURL B c') (historyState s),
         isLoading := False\<rparr>"
    by (simp only: handleSubmit_response_def a fst_conv)
  have b': "handleSubmit_response B (Returns (imageParts ps)) s
     = s\<lparr>generatedImage := Some url, backgroundImage := Some img, canvas := Some c',
         historyState := pushSnapshot (toDataURL B c') (historyState s),
         isLoading := False\<rparr>"
    by (simp only: handleSubmit_response_def b fst_conv)
  have len: "length (stack (historyState (handleSubmit_response B (Returns ps) s)))
          = length (stack (historyState s)) + 1"
    if "0 \<le> index (historyState s)"
       "index (historyState s) = int (length (stack (historyState s))) - 1"
    using that by (simp add: a' pushSnapshot_stack)
  have ba: "handleSubmit_response B (Returns (imageParts ps)) s
      = handleSubmit_response B (Returns ps) s"
    by (simp only: a' b')
  have q: "snd (handleSubmit_settle B (Returns ps) s) = Quiet"
    by (simp only: a snd_conv)
  from a'[unfolded url_def c'_def] len ba rp q show ?thesis
    by blast
qed

theorem apply_result_last_image_witness:
  "filter throwsPart [Part None (Some (Blob (Some ''AAAA''))), Part (Some ''added a hat'') None,
               Part None (Some (Blob (Some ''BBBB'')))] = [] \<and>
   imageParts [Part None (Some (Blob (Some ''AAAA''))), Part (Some ''added a hat'') None,
               Part None (Some (Blob (Some ''BBBB'')))] \<noteq> [] \<and>
   partImage (last (imageParts [Part None (Some (Blob (Some ''AAAA''))),
               Part (Some ''added a hat'') None,
               Part None (Some (Blob (Some ''BBBB'')))])) = Some ''BBBB'' \<and>
   generatedImage demo_home \<noteq> Some (''data:image/png;base64,'' @ ''BBBB'') \<and>
   canvas demo_home = Some ''c2'' \<and>
   loadImage demo_browser (''data:image/png;base64,'' @ ''BBBB'') = Some ''BBBB'' \<and>
   0 \<le> index (historyState demo_home) \<and>
   index (historyState demo_home) = int (length (stack (historyState demo_home))) - 1 \<and>
   canvas (handleSubmit_response demo_browser
        (Returns [Part None (Some (Blob (Some ''AAAA''))), Part (Some ''added a hat'') None,
                  Part None (Some (Blob (Some ''BBBB'')))]) demo_home) = Some ''BBBB'' \<and>
   length (stack (historyState (handleSubmit_response demo_browser
        (Returns [Part None (Some (Blob (Some ''AAAA''))), Part (Some ''added a hat'') None,
                  Part None (Some (Blob (Some ''BBBB'')))]) demo_home))) = 4 \<and>
   map_option message (readParts [Part None (Some (Blob (Some ''AAAA''))),
                  Part (Some ''added a hat'') None,
                  Part None (Some (Blob (Some ''BBBB'')))]) = Some ''added a hat''"
proof -
  let ?ps = "[Part None (Some (Blob (Some ''AAAA''))), Part (Some ''added a hat'') None,
               Part None (Some (Blob (Some ''BBBB'')))]"
  have ip: "imageParts ?ps
      = [Part None (Some (Blob (Some ''AAAA''))), Part None (Some (Blob (Some ''BBBB'')))]"
    by (simp add: imageParts_def isImagePart_def partImage_def)
  have tp: "textParts ?ps = [Part (Some ''added a hat'') None]"
    by (simp add: textParts_def)
  have h0: "\<forall>p\<in>set ?ps. \<not> throwsPart p" by (simp add: throwsPart_def)
  have h1: "imageParts ?ps \<noteq> []" by (simp add: ip)
  have h2: "partImage (last (imageParts ?ps)) = Some ''BBBB''" by (simp add: ip partImage_def)
  have h3: "''BBBB'' \<noteq> []" by simp
  have h4: "generatedImage demo_home \<noteq> Some (''data:image/png;base64,'' @ ''BBBB'')"
    by (simp add: demo_home_def)
  have h5: "canvas demo_home = Some ''c2''" by (simp add: demo_home_def)
  have h6: "loadImage demo_browser (''data:image/png;base64,'' @ ''BBBB'') = Some ''BBBB''"
    by (simp add: demo_browser_def)
  have h7: "0 \<le> index (historyState demo_home)"
    "index (historyState demo_home) = int (length (stack (historyState demo_home))) - 1"
    "length (stack (historyState demo_home)) = 3"
    by (simp_all add: demo_home_def)
  have dr: "drawImage demo_browser ''BBBB'' args r = ''BBBB''" for args r
    by (simp add: demo_browser_def)
  note t = apply_result_last_image[OF h0 h1 h2 h3 h4 h5 h6]
  have r1: "canvas (handleSubmit_response demo_browser (Returns ?ps) demo_home) = Some ''BBBB''"
    using t[THEN conjunct1] by (simp add: dr)
  have r2: "length (stack (historyState
        (handleSubmit_response demo_browser (Returns ?ps) demo_home))) = 4"
    using t[THEN conjunct2, THEN conjunct1] h7 by simp
  have r3: "map_option message (readParts ?ps) = Some ''added a hat''"
    using t[THEN conjunct2, THEN conjunct2, THEN conjunct2, THEN conjunct1] by (simp add: tp)
  have h0': "filter throwsPart ?ps = []" by (simp add: throwsPart_def)
  from h0' h1 h2 h4 h5 h6 h7(1,2) r1 r2 r3 show ?thesis by blast
qed

text \<open>
  The claim as stated fails: of two image parts the second is applied, not the first;
  positioned at the first of three snapshots, applying a result leaves two snapshots,
  not four; and a result equal to the image already shown commits no snapshot.
\<close>

theorem response_last_image_wins:
  "generatedImage
     (handleSubmit_response demo_browser
        (Returns [Part None (Some (Blob (Some ''AAAA''))), Part (Some ''added a hat'') None,
                  Part None (Some (Blob (Some ''BBBB'')))])
        demo_home)
     = Some ''data:image/png;base64,BBBB''
   \<and> length (stack (historyState demo_first)) = 3
   \<and> length (stack (historyState
        (handleSubmit_response demo_browser
           (Returns [Part None (Some (Blob (Some ''AAAA''))), Part (Some ''added a hat'') None])
           demo_first)))
     = 2
   \<and> historyState
        (handleSubmit_response demo_browser (Returns [Part None (Some (Blob (Some ''AAAA'')))])
           (demo_home\<lparr>generatedImage := Some ''data:image/png;base64,AAAA''\<rparr>))
     = historyState demo_home"
  by (simp add: handleSubmit_response_def handleSubmit_settle_def readParts_def readPart_def
        setGeneratedImage_def
        generatedImageEffect_def drawImageToCanvas_def saveCanvasState_def pushSnapshot_def
        js_slice_def demo_home_def demo_first_def demo_browser_def Let_def)

end
